theory Spec2Isabelle
  imports Complex_Main "HOL-Library.Word" "HOL-Library.Multiset"
begin

section \<open>FluidDemo: the control harness of Demos/FluidDemo/main.cpp\<close>

text \<open>
  The embedding follows \<^verbatim>\<open>src/Demos/FluidDemo/main.cpp\<close>.

  \<^item> \<^verbatim>\<open>Real\<close> (float or double, by build flag) is idealised as the field \<^typ>\<open>real\<close>
    wherever rounding moves a value by a rounding error only. Where a rounding error can
    change a discrete result, at the cast to \<^verbatim>\<open>unsigned int\<close> in \<^verbatim>\<open>addWall\<close>, the operands and
    the operations are rounded as the machine rounds them, in either format. Where there is
    no real number for what the machine computes (a division by zero, an overflow, a cast
    out of range) the model returns a fault.
  \<^item> \<^verbatim>\<open>unsigned int\<close> is \<^typ>\<open>32 word\<close>: \<open>+\<close> and \<open>*\<close> wrap around, \<open>unat\<close> reads the
    value, \<open>sint\<close> is the conversion to \<^verbatim>\<open>int\<close>.
  \<^item> \<^verbatim>\<open>std::vector\<close> is a list; an access outside the vector is undefined behaviour in
    C++ and the fault \<open>OutOfBounds\<close> here.
  \<^item> The globals (\<^verbatim>\<open>model\<close>, \<^verbatim>\<open>base\<close>, the \<^verbatim>\<open>TimeManager\<close>, \<^verbatim>\<open>selectedParticles\<close>,
    \<^verbatim>\<open>oldMousePos\<close>, the handler registered with \<^verbatim>\<open>MiniGL\<close>) are the fields of one state
    record that every function takes and returns.
\<close>

subsection \<open>Vectors\<close>

type_synonym Vector3r = "real \<times> real \<times> real"
type_synonym Vector2i = "int \<times> int"

fun vadd :: "Vector3r \<Rightarrow> Vector3r \<Rightarrow> Vector3r" where
  "vadd (a1, a2, a3) (b1, b2, b3) = (a1 + b1, a2 + b2, a3 + b3)"

fun vsub :: "Vector3r \<Rightarrow> Vector3r \<Rightarrow> Vector3r" where
  "vsub (a1, a2, a3) (b1, b2, b3) = (a1 - b1, a2 - b2, a3 - b3)"

text \<open>\<^verbatim>\<open>c * v\<close> and \<^verbatim>\<open>v / c\<close> of Eigen, component by component.\<close>

fun vscale :: "real \<Rightarrow> Vector3r \<Rightarrow> Vector3r" where
  "vscale c (a1, a2, a3) = (c * a1, c * a2, c * a3)"

fun vdivs :: "Vector3r \<Rightarrow> real \<Rightarrow> Vector3r" where
  "vdivs (a1, a2, a3) c = (a1 / c, a2 / c, a3 / c)"

subsection \<open>Faults\<close>

datatype fault =
    OutOfBounds \<comment> \<open>an index outside a \<^verbatim>\<open>std::vector\<close>: undefined behaviour\<close>
  | DivByZero \<comment> \<open>a floating-point division by zero: infinity or NaN, no real number\<close>
  | CastOutOfRange \<comment> \<open>a floating-point value cast to \<^verbatim>\<open>unsigned int\<close> that does not fit\<close>
  | Overflow \<comment> \<open>a floating-point result beyond the largest finite number: infinity\<close>

subsection \<open>The state\<close>

text \<open>
  \<^verbatim>\<open>ParticleData\<close> (declared outside this file): the accessors used here are \<^verbatim>\<open>size\<close>,
  \<^verbatim>\<open>getPosition\<close> and \<^verbatim>\<open>getVelocity\<close>.
\<close>

record ParticleData =
  positions :: "Vector3r list"
  velocities :: "Vector3r list"

datatype handler = MouseMoveHandler

text \<open>
  The result of \<^verbatim>\<open>MiniGL::unproject(x, y, pos)\<close>, taken as a parameter of the functions that
  call it. The call site receives nothing but the content of the out-parameter \<^verbatim>\<open>pos\<close>;
  whether the cursor was inside the viewing frustum is recorded by the constructor so that
  statements can speak about it.
\<close>

datatype unprojected = InFrustum Vector3r | OutsideFrustum Vector3r

fun written :: "unprojected \<Rightarrow> Vector3r" where
  "written (InFrustum p) = p"
| "written (OutsideFrustum p) = p"

record demo =
  particles :: ParticleData \<comment> \<open>\<^verbatim>\<open>model.getParticles()\<close>\<close>
  particles0 :: ParticleData \<comment> \<open>the particle state right after \<^verbatim>\<open>model.initModel\<close>\<close>
  time :: real \<comment> \<open>\<^verbatim>\<open>TimeManager::getTime()\<close>\<close>
  timeStepSize :: real \<comment> \<open>\<^verbatim>\<open>TimeManager::getTimeStepSize()\<close>\<close>
  pause :: bool \<comment> \<open>\<^verbatim>\<open>DemoBase::PAUSE\<close>\<close>
  pauseAt :: real \<comment> \<open>\<^verbatim>\<open>DemoBase::PAUSE_AT\<close>\<close>
  numStepsPerRender :: "32 word" \<comment> \<open>\<^verbatim>\<open>DemoBase::NUM_STEPS_PER_RENDER\<close>\<close>
  selectedParticles :: "nat list"
  oldMousePos :: Vector3r
  mouseMoveFunc :: "int \<times> handler option" \<comment> \<open>\<^verbatim>\<open>MiniGL::setMouseMoveFunc(button, f)\<close>\<close>
  simSteps :: nat \<comment> \<open>how many times \<^verbatim>\<open>simulation.step\<close> has been called (a trace)\<close>

subsection \<open>reset\<close>

text \<open>
  Modelled from the spec: \<^verbatim>\<open>FluidModel::reset\<close> and \<^verbatim>\<open>TimeStepFluidModel::reset\<close> are not in
  src/. The spec's \<^verbatim>\<open>resetState()\<close> restores the particle state to the state right after the
  scenario was loaded.
\<close>

definition modelReset :: "demo \<Rightarrow> demo" where
  "modelReset s = s\<lparr>particles := particles0 s\<rparr>"

text \<open>
  \<^verbatim>\<open>reset()\<close>: the two \<^verbatim>\<open>Timing\<close> calls print and clear timing statistics, which are not
  part of the state; then \<^verbatim>\<open>model.reset()\<close>, \<^verbatim>\<open>simulation.reset()\<close> and
  \<^verbatim>\<open>setTime(0.0)\<close>.
\<close>

definition reset :: "demo \<Rightarrow> demo" where
  "reset s = (modelReset s)\<lparr>time := 0\<rparr>"

subsection \<open>mouseMove and selection\<close>

text \<open>
  The loop of \<^verbatim>\<open>mouseMove\<close>: \<^verbatim>\<open>pd.getVelocity(selectedParticles[j]) += imp\<close> for each \<open>j\<close>
  in turn. The source does not check the index.
\<close>

fun addImpulse :: "Vector3r \<Rightarrow> nat list \<Rightarrow> Vector3r list \<Rightarrow> fault + Vector3r list" where
  "addImpulse imp [] vs = Inr vs"
| "addImpulse imp (p # ps) vs =
     (if p < length vs then addImpulse imp ps (vs[p := vadd (vs ! p) imp])
      else Inl OutOfBounds)"

text \<open>
  \<^verbatim>\<open>mouseMove(x, y, clientData)\<close>. The impulse is \<^verbatim>\<open>5.0*diff/h\<close>; the source divides
  without a test, and a zero step size is the fault \<open>DivByZero\<close> here.
\<close>

definition mouseMove :: "(int \<Rightarrow> int \<Rightarrow> unprojected) \<Rightarrow> int \<Rightarrow> int \<Rightarrow> demo \<Rightarrow> fault + demo" where
  "mouseMove unproject x y s =
     (let mousePos = written (unproject x y);
          diff = vsub mousePos (oldMousePos s);
          h = timeStepSize s
      in if h = 0 then Inl DivByZero
         else case addImpulse (vdivs (vscale 5 diff) h) (selectedParticles s)
                     (velocities (particles s)) of
                Inl e \<Rightarrow> Inl e
              | Inr vs \<Rightarrow>
                  Inr (s\<lparr>particles := (particles s)\<lparr>velocities := vs\<rparr>,
                         oldMousePos := mousePos\<rparr>))"

text \<open>
  \<^verbatim>\<open>selection(start, end, clientData)\<close>. \<^verbatim>\<open>Selection::selectRect\<close> is a parameter: given the
  rectangle and the positions it returns the indices it appends to the cleared vector.
  \<^verbatim>\<open>pd.getPosition(pd.size() - 1)\<close> is outside the vector when there is no particle.
\<close>

definition selection ::
  "(Vector2i \<Rightarrow> Vector2i \<Rightarrow> Vector3r list \<Rightarrow> nat list) \<Rightarrow> (int \<Rightarrow> int \<Rightarrow> unprojected) \<Rightarrow>
   Vector2i \<Rightarrow> Vector2i \<Rightarrow> demo \<Rightarrow> fault + demo" where
  "selection selectRect unproject start end s =
     (if positions (particles s) = [] then Inl OutOfBounds
      else
        let hits = selectRect start end (positions (particles s))
        in Inr (s\<lparr>selectedParticles := hits,
                   mouseMoveFunc := (if length hits > 0 then (2, Some MouseMoveHandler)
                                     else (-1, None)),
                   oldMousePos := written (unproject (fst end) (snd end))\<rparr>))"

subsection \<open>timeStep\<close>

text \<open>
  Modelled from the spec: \<^verbatim>\<open>TimeStepFluidModel::step\<close> is not in src/. By the spec each step
  is one advance call of the external solver followed by one clock advance by exactly the
  step size. The solver's effect on the particles is the parameter \<open>advance\<close>.
\<close>

definition simulationStep :: "(real \<Rightarrow> ParticleData \<Rightarrow> ParticleData) \<Rightarrow> demo \<Rightarrow> demo" where
  "simulationStep advance s =
     s\<lparr>particles := advance (timeStepSize s) (particles s),
       time := time s + timeStepSize s,
       simSteps := simSteps s + 1\<rparr>"

text \<open>
  The body of the loop, \<^verbatim>\<open>numSteps\<close> times: \<^verbatim>\<open>simulation.step(model)\<close>, then
  \<^verbatim>\<open>base->step()\<close>, the bookkeeping hook of \<^verbatim>\<open>DemoBase\<close>, which changes none of the fields
  modelled here.
\<close>

fun stepLoop :: "(real \<Rightarrow> ParticleData \<Rightarrow> ParticleData) \<Rightarrow> nat \<Rightarrow> demo \<Rightarrow> demo" where
  "stepLoop advance 0 s = s"
| "stepLoop advance (Suc n) s = stepLoop advance n (simulationStep advance s)"

definition timeStep :: "(real \<Rightarrow> ParticleData \<Rightarrow> ParticleData) \<Rightarrow> demo \<Rightarrow> demo" where
  "timeStep advance s =
     (let s1 = (if pauseAt s > 0 \<and> pauseAt s < time s then s\<lparr>pause := True\<rparr> else s)
      in if pause s1 then s1
         else stepLoop advance (unat (numStepsPerRender s1)) s1)"

text \<open>\<open>n\<close> render ticks in a row: the idle function called \<open>n\<close> times by the main loop.\<close>

fun ticks :: "(real \<Rightarrow> ParticleData \<Rightarrow> ParticleData) \<Rightarrow> nat \<Rightarrow> demo \<Rightarrow> demo" where
  "ticks advance 0 s = s"
| "ticks advance (Suc n) s = ticks advance n (timeStep advance s)"


section \<open>The Scene Builder\<close>

subsection \<open>Constants\<close>

definition particleRadius :: real where
  "particleRadius = 0.025"

definition width :: "32 word" where
  "width = 15"

definition depth :: "32 word" where
  "depth = 15"

definition height :: "32 word" where
  "height = 20"

text \<open>\<^verbatim>\<open>(width + 1)\<close> is computed in \<^verbatim>\<open>unsigned int\<close> and then converted to \<^verbatim>\<open>Real\<close>.\<close>

definition containerWidth :: real where
  "containerWidth = real (unat (width + 1)) * particleRadius * (2.0 * 5.0)"

definition containerDepth :: real where
  "containerDepth = real (unat (depth + 1)) * particleRadius * 2.0"

definition containerHeight :: real where
  "containerHeight = 4.0"

subsection \<open>Vectors that are resized and then filled\<close>

text \<open>
  \<^verbatim>\<open>v.resize(n)\<close>: the first \<open>n\<close> elements are kept; a new element is default-constructed,
  which for an Eigen vector leaves its content unspecified: \<open>fresh i\<close> is what cell \<open>i\<close>
  happens to hold.
\<close>

definition resize :: "nat \<Rightarrow> (nat \<Rightarrow> 'a) \<Rightarrow> 'a list \<Rightarrow> 'a list" where
  "resize n fresh xs = take n xs @ map fresh [length xs..<n]"

text \<open>
  A sequence of assignments \<^verbatim>\<open>v[i] = x\<close>, in the order given. The loops below are
  \<^verbatim>\<open>omp for\<close> loops: the sequential order of their assignments is one schedule, every other
  schedule is a permutation of it.
\<close>

fun writeAll :: "(nat \<times> 'a) list \<Rightarrow> 'a list \<Rightarrow> fault + 'a list" where
  "writeAll [] xs = Inr xs"
| "writeAll ((i, v) # ws) xs =
     (if i < length xs then writeAll ws (xs[i := v]) else Inl OutOfBounds)"

definition bindF :: "fault + 'a \<Rightarrow> ('a \<Rightarrow> fault + 'b) \<Rightarrow> fault + 'b" where
  "bindF r f = (case r of Inl e \<Rightarrow> Inl e | Inr x \<Rightarrow> f x)"

subsection \<open>createBreakingDam: the fluid lattice\<close>

definition diam :: real where
  "diam = 2.0 * particleRadius"

definition startX :: real where
  "startX = - 0.5 * containerWidth + diam"

definition startY :: real where
  "startY = diam"

definition startZ :: real where
  "startZ = - 0.5 * containerDepth + diam"

text \<open>\<^verbatim>\<open>i*height*depth + j*depth + k\<close>, in \<^verbatim>\<open>unsigned int\<close>.\<close>

definition fluidIndex :: "nat \<Rightarrow> nat \<Rightarrow> nat \<Rightarrow> 32 word" where
  "fluidIndex i j k = of_nat i * height * depth + of_nat j * depth + of_nat k"

definition fluidPos :: "nat \<Rightarrow> nat \<Rightarrow> nat \<Rightarrow> Vector3r" where
  "fluidPos i j k = vadd (vscale diam (real i, real j, real k)) (startX, startY, startZ)"

text \<open>
  The assignments of the three nested loops in sequential order: \<open>i\<close> below \<^verbatim>\<open>(int)width\<close>,
  \<open>j\<close> below \<^verbatim>\<open>height\<close>, \<open>k\<close> below \<^verbatim>\<open>depth\<close>.
\<close>

definition fluidWrites :: "(nat \<times> Vector3r) list" where
  "fluidWrites =
     map (\<lambda>(i, j, k). (unat (fluidIndex i j k), fluidPos i j k))
       (List.product [0..<nat (sint width)] (List.product [0..<unat height] [0..<unat depth]))"

text \<open>
  \<^verbatim>\<open>fluidParticles\<close> after \<^verbatim>\<open>resize(width*height*depth)\<close> and the loops run in the order
  \<open>ws\<close> of assignments.
\<close>

definition fillFluid :: "(nat \<times> Vector3r) list \<Rightarrow> (nat \<Rightarrow> Vector3r) \<Rightarrow> fault + Vector3r list" where
  "fillFluid ws fresh = writeAll ws (resize (unat (width * height * depth)) fresh [])"

subsection \<open>The cast to unsigned int\<close>

text \<open>
  The cast \<^verbatim>\<open>(unsigned int) r\<close> truncates towards zero; its behaviour is undefined when the
  truncated value is not a value of \<^verbatim>\<open>unsigned int\<close>.
\<close>

definition toUInt :: "real \<Rightarrow> fault + 32 word" where
  "toUInt r =
     (let t = (if 0 \<le> r then \<lfloor>r\<rfloor> else \<lceil>r\<rceil>)
      in if 0 \<le> t \<and> t < 2 ^ 32 then Inr (word_of_int t) else Inl CastOutOfRange)"

subsection \<open>Real at the cast\<close>

text \<open>
  The two formats \<^verbatim>\<open>Real\<close> can be: the precision in bits and the largest exponent of IEEE
  754 single and double precision.
\<close>

datatype RealFormat = Float | Double

fun prec :: "RealFormat \<Rightarrow> nat" where
  "prec Float = 24"
| "prec Double = 53"

fun emax :: "RealFormat \<Rightarrow> int" where
  "emax Float = 127"
| "emax Double = 1023"

text \<open>The number of bits of a natural number, and with it \<open>floor (log2 x)\<close> for \<open>x > 0\<close>.\<close>

fun bitLength :: "nat \<Rightarrow> nat" where
  "bitLength n = (if n = 0 then 0 else Suc (bitLength (n div 2)))"

declare bitLength.simps [simp del]

definition ilog2 :: "real \<Rightarrow> int" where
  "ilog2 x = (if 1 \<le> x then int (bitLength (nat \<lfloor>x\<rfloor>)) - 1
              else - int (bitLength (nat (\<lceil>1 / x\<rceil> - 1))))"

text \<open>Rounding to the nearest integer, a tie to the even one.\<close>

definition roundEven :: "real \<Rightarrow> int" where
  "roundEven y =
     (let n = \<lfloor>y\<rfloor>; r = y - of_int n
      in if r < 1 / 2 then n else if 1 / 2 < r then n + 1 else if even n then n else n + 1)"

text \<open>
  The unit in the last place at \<open>x\<close>: \<open>2\<close> to the exponent of \<open>x\<close> (not below the smallest
  normal exponent \<open>1 - emax\<close>, so subnormal numbers are covered) minus \<open>prec - 1\<close>.
\<close>

definition ulp :: "RealFormat \<Rightarrow> real \<Rightarrow> real" where
  "ulp f x =
     (let e = max (ilog2 \<bar>x\<bar>) (1 - emax f) - (int (prec f) - 1)
      in if 0 \<le> e then 2 ^ nat e else 1 / 2 ^ nat (- e))"

text \<open>Rounding to nearest, ties to even: the machine number next to \<open>x\<close>.\<close>

definition rnd :: "RealFormat \<Rightarrow> real \<Rightarrow> real" where
  "rnd f x = (if x = 0 then 0 else of_int (roundEven (x / ulp f x)) * ulp f x)"

text \<open>A value as the machine holds it, and the result of an operation as it delivers it.\<close>

definition fl :: "RealFormat \<Rightarrow> real \<Rightarrow> fault + real" where
  "fl f x = (let y = rnd f x in if \<bar>y\<bar> < 2 ^ nat (emax f + 1) then Inr y else Inl Overflow)"

subsection \<open>The step counts of addWall\<close>

text \<open>
  \<^verbatim>\<open>particleDistance = static_cast<Real>(2.0)*model.getParticleRadius()\<close>. The argument
  \<open>radius\<close> stands for the machine number next to it.
\<close>

definition particleDistanceOf :: "RealFormat \<Rightarrow> real \<Rightarrow> fault + real" where
  "particleDistanceOf f radius = bindF (fl f radius) (\<lambda>r. fl f (2.0 * r))"

text \<open>One component of \<^verbatim>\<open>diff = maxX - minX\<close>.\<close>

definition axisExtent :: "RealFormat \<Rightarrow> real \<Rightarrow> real \<Rightarrow> fault + real" where
  "axisExtent f hi lo = bindF (fl f hi) (\<lambda>a. bindF (fl f lo) (\<lambda>b. fl f (a - b)))"

fun wallExtents :: "RealFormat \<Rightarrow> Vector3r \<Rightarrow> Vector3r \<Rightarrow> fault + Vector3r" where
  "wallExtents f (a1, a2, a3) (b1, b2, b3) =
     bindF (axisExtent f b1 a1) (\<lambda>ex.
     bindF (axisExtent f b2 a2) (\<lambda>ey.
     bindF (axisExtent f b3 a3) (\<lambda>ez.
     Inr (ex, ey, ez))))"

text \<open>
  \<^verbatim>\<open>(unsigned int)(diff[i] / particleDistance) + 1u\<close>: the quotient is rounded, then
  truncated by the cast; a quotient beyond the range of the format is infinite on the
  machine and, like every value from \<open>2^32\<close> on, outside the range of the cast.
\<close>

definition axisSteps :: "RealFormat \<Rightarrow> real \<Rightarrow> real \<Rightarrow> fault + 32 word" where
  "axisSteps f particleDistance e =
     (if particleDistance = 0 then Inl DivByZero
      else bindF (toUInt (rnd f (e / particleDistance))) (\<lambda>q. Inr (q + 1)))"

definition wallSteps ::
  "RealFormat \<Rightarrow> real \<Rightarrow> Vector3r \<Rightarrow> Vector3r \<Rightarrow> fault + (32 word \<times> 32 word \<times> 32 word)" where
  "wallSteps f radius minX maxX =
     bindF (particleDistanceOf f radius) (\<lambda>particleDistance.
     bindF (wallExtents f minX maxX) (\<lambda>diff.
     bindF (axisSteps f particleDistance (fst diff)) (\<lambda>stepsX.
     bindF (axisSteps f particleDistance (fst (snd diff))) (\<lambda>stepsY.
     bindF (axisSteps f particleDistance (snd (snd diff))) (\<lambda>stepsZ.
     Inr (stepsX, stepsY, stepsZ))))))"

text \<open>
  The step count of one axis as a number: the truncated rounded quotient plus one, for a
  particle distance \<open>d\<close> and an extent \<open>e\<close> as the machine holds them.
\<close>

definition machineSteps :: "RealFormat \<Rightarrow> real \<Rightarrow> real \<Rightarrow> nat" where
  "machineSteps f d e = nat \<lfloor>rnd f (e / d)\<rfloor> + 1"

subsection \<open>The assignments of addWall\<close>

text \<open>\<^verbatim>\<open>startIndex + j*stepsY*stepsZ + k*stepsZ + l\<close>, in \<^verbatim>\<open>unsigned int\<close>.\<close>

definition wallIndex :: "32 word \<Rightarrow> 32 word \<Rightarrow> 32 word \<Rightarrow> nat \<Rightarrow> nat \<Rightarrow> nat \<Rightarrow> 32 word" where
  "wallIndex startIndex stepsY stepsZ j k l =
     startIndex + of_nat j * stepsY * stepsZ + of_nat k * stepsZ + of_nat l"

definition wallPos :: "real \<Rightarrow> Vector3r \<Rightarrow> nat \<Rightarrow> nat \<Rightarrow> nat \<Rightarrow> Vector3r" where
  "wallPos particleDistance minX j k l =
     vadd minX (real j * particleDistance, real k * particleDistance, real l * particleDistance)"

text \<open>
  The assignments of the loops of \<^verbatim>\<open>addWall\<close> in sequential order: \<open>j\<close> below
  \<^verbatim>\<open>(int)stepsX\<close>, \<open>k\<close> below \<^verbatim>\<open>stepsY\<close>, \<open>l\<close> below \<^verbatim>\<open>stepsZ\<close>.
\<close>

definition wallWrites ::
  "real \<Rightarrow> Vector3r \<Rightarrow> 32 word \<Rightarrow> 32 word \<times> 32 word \<times> 32 word \<Rightarrow> (nat \<times> Vector3r) list" where
  "wallWrites radius minX startIndex steps =
     (case steps of (stepsX, stepsY, stepsZ) \<Rightarrow>
        map (\<lambda>(j, k, l). (unat (wallIndex startIndex stepsY stepsZ j k l),
                          wallPos (2.0 * radius) minX j k l))
          (List.product [0..<nat (sint stepsX)]
             (List.product [0..<unat stepsY] [0..<unat stepsZ])))"

text \<open>
  \<^verbatim>\<open>addWall(minX, maxX, boundaryParticles)\<close>; \<open>radius\<close> is \<^verbatim>\<open>model.getParticleRadius()\<close>
  and \<open>f\<close> the format of \<^verbatim>\<open>Real\<close>. \<^verbatim>\<open>startIndex\<close> is the size of the vector converted to
  \<^verbatim>\<open>unsigned int\<close>.
\<close>

definition addWall ::
  "RealFormat \<Rightarrow> real \<Rightarrow> (nat \<Rightarrow> Vector3r) \<Rightarrow> Vector3r \<Rightarrow> Vector3r \<Rightarrow> Vector3r list \<Rightarrow>
   fault + Vector3r list" where
  "addWall f radius fresh minX maxX boundaryParticles =
     bindF (wallSteps f radius minX maxX) (\<lambda>steps.
       case steps of (stepsX, stepsY, stepsZ) \<Rightarrow>
         let startIndex = (of_nat (length boundaryParticles) :: 32 word);
             resized = resize (unat (startIndex + stepsX * stepsY * stepsZ)) fresh
                         boundaryParticles
         in writeAll (wallWrites radius minX startIndex steps) resized)"

text \<open>The six walls of \<^verbatim>\<open>initBoundaryData\<close>, in the order of its calls.\<close>

definition walls :: "(Vector3r \<times> Vector3r) list" where
  "walls =
     (let x1 = - containerWidth / 2.0; x2 = containerWidth / 2.0;
          y1 = 0.0; y2 = containerHeight;
          z1 = - containerDepth / 2.0; z2 = containerDepth / 2.0
      in [((x1, y1, z1), (x2, y1, z2)),
          ((x1, y2, z1), (x2, y2, z2)),
          ((x1, y1, z1), (x1, y2, z2)),
          ((x2, y1, z1), (x2, y2, z2)),
          ((x1, y1, z1), (x2, y2, z1)),
          ((x1, y1, z2), (x2, y2, z2))])"

fun addWalls ::
  "RealFormat \<Rightarrow> real \<Rightarrow> (nat \<Rightarrow> Vector3r) \<Rightarrow> (Vector3r \<times> Vector3r) list \<Rightarrow> Vector3r list \<Rightarrow>
   fault + Vector3r list" where
  "addWalls f radius fresh [] boundaryParticles = Inr boundaryParticles"
| "addWalls f radius fresh ((minX, maxX) # ws) boundaryParticles =
     bindF (addWall f radius fresh minX maxX boundaryParticles) (addWalls f radius fresh ws)"

definition initBoundaryData ::
  "RealFormat \<Rightarrow> real \<Rightarrow> (nat \<Rightarrow> Vector3r) \<Rightarrow> Vector3r list \<Rightarrow> fault + Vector3r list" where
  "initBoundaryData f radius fresh boundaryParticles =
     addWalls f radius fresh walls boundaryParticles"

text \<open>
  \<^verbatim>\<open>createBreakingDam\<close> up to its call of \<^verbatim>\<open>model.initModel\<close>: the result is the pair of
  vectors handed to that call. \<^verbatim>\<open>model.setParticleRadius(particleRadius)\<close> precedes
  \<^verbatim>\<open>initBoundaryData\<close>, so \<^verbatim>\<open>addWall\<close> reads \<^verbatim>\<open>particleRadius\<close>.
\<close>

definition createBreakingDam ::
  "RealFormat \<Rightarrow> (nat \<Rightarrow> Vector3r) \<Rightarrow> (nat \<Rightarrow> Vector3r) \<Rightarrow>
   fault + (Vector3r list \<times> Vector3r list)" where
  "createBreakingDam f freshFluid freshBoundary =
     bindF (fillFluid fluidWrites freshFluid) (\<lambda>fluidParticles.
     bindF (initBoundaryData f particleRadius freshBoundary []) (\<lambda>boundaryParticles.
     Inr (fluidParticles, boundaryParticles)))"


subsection \<open>The walls in the words of the specification\<close>

text \<open>The step count of one axis: \<^verbatim>\<open>floor(extent/spacing) + 1\<close>.\<close>

definition stepCount :: "real \<Rightarrow> real \<Rightarrow> nat" where
  "stepCount spacing extent = nat \<lfloor>extent / spacing\<rfloor> + 1"

definition wallCount :: "real \<Rightarrow> Vector3r \<Rightarrow> Vector3r \<Rightarrow> nat" where
  "wallCount radius minX maxX =
     (case vsub maxX minX of (ex, ey, ez) \<Rightarrow>
        stepCount (2 * radius) ex * (stepCount (2 * radius) ey * stepCount (2 * radius) ez))"

text \<open>One particle per lattice cell of the wall, in the canonical order.\<close>

definition wallPoints :: "real \<Rightarrow> Vector3r \<Rightarrow> Vector3r \<Rightarrow> Vector3r list" where
  "wallPoints radius minX maxX =
     (case vsub maxX minX of (ex, ey, ez) \<Rightarrow>
        map (\<lambda>(j, k, l). wallPos (2 * radius) minX j k l)
          (List.product [0..<stepCount (2 * radius) ex]
             (List.product [0..<stepCount (2 * radius) ey] [0..<stepCount (2 * radius) ez])))"

subsection \<open>Concrete inputs\<close>

text \<open>A solver that leaves the particles as they are, and two cursors.\<close>

definition idleSolver :: "real \<Rightarrow> ParticleData \<Rightarrow> ParticleData" where
  "idleSolver h pd = pd"

definition unprojectOutside :: "int \<Rightarrow> int \<Rightarrow> unprojected" where
  "unprojectOutside x y = OutsideFrustum (1, 0, 0)"

definition unprojectInside :: "int \<Rightarrow> int \<Rightarrow> unprojected" where
  "unprojectInside x y = InFrustum (real_of_int x, real_of_int y, 0)"

text \<open>
  Two particles, the first one selected, one step of size \<open>0.0025\<close> done, four steps per
  render tick, and pause-at set to the present time.
\<close>

definition exampleState :: demo where
  "exampleState =
     \<lparr>particles = \<lparr>positions = [(0, 0, 0), (1, 0, 0)], velocities = [(0, 0, 1), (0, 0, 0)]\<rparr>,
      particles0 = \<lparr>positions = [(0, 0, 0), (1, 0, 0)], velocities = [(0, 0, 0), (0, 0, 0)]\<rparr>,
      time = 0.0025,
      timeStepSize = 0.0025,
      pause = False,
      pauseAt = 0.0025,
      numStepsPerRender = 4,
      selectedParticles = [0],
      oldMousePos = (0, 0, 0),
      mouseMoveFunc = (2, Some MouseMoveHandler),
      simSteps = 1\<rparr>"

definition zeroFresh :: "nat \<Rightarrow> Vector3r" where
  "zeroFresh n = (0, 0, 0)"

section \<open>The clock and the step driver\<close>

subsection \<open>The step loop\<close>

lemma stepLoop_time: "time (stepLoop adv n s) = time s + real n * timeStepSize s"
  by (induction n arbitrary: s) (simp_all add: simulationStep_def algebra_simps)

lemma stepLoop_simSteps: "simSteps (stepLoop adv n s) = simSteps s + n"
  by (induction n arbitrary: s) (simp_all add: simulationStep_def)

lemma stepLoop_frame:
  "pause (stepLoop adv n s) = pause s \<and> pauseAt (stepLoop adv n s) = pauseAt s \<and>
   numStepsPerRender (stepLoop adv n s) = numStepsPerRender s \<and>
   timeStepSize (stepLoop adv n s) = timeStepSize s"
  by (induction n arbitrary: s) (simp_all add: simulationStep_def)

lemma timeStep_frame:
  "pauseAt (timeStep adv s) = pauseAt s \<and>
   numStepsPerRender (timeStep adv s) = numStepsPerRender s \<and>
   timeStepSize (timeStep adv s) = timeStepSize s"
  by (simp add: timeStep_def Let_def stepLoop_frame)

lemma timeStep_paused: "pause s \<Longrightarrow> timeStep adv s = s"
  by (simp add: timeStep_def Let_def)

lemma timeStep_running:
  "\<not> pause (timeStep adv s) \<Longrightarrow>
   \<not> pause s \<and>
   time (timeStep adv s) = time s + real (unat (numStepsPerRender s)) * timeStepSize s \<and>
   simSteps (timeStep adv s) = simSteps s + unat (numStepsPerRender s)"
  by (auto simp: timeStep_def Let_def stepLoop_time stepLoop_simSteps stepLoop_frame
      split: if_splits)

lemma timeStep_not_passed:
  "\<not> pause s \<Longrightarrow> \<not> (0 < pauseAt s \<and> pauseAt s < time s) \<Longrightarrow>
   timeStep adv s = stepLoop adv (unat (numStepsPerRender s)) s"
  by (auto simp: timeStep_def Let_def)

lemma ticks_paused: "pause s \<Longrightarrow> ticks adv n s = s"
  by (induction n arbitrary: s) (simp_all add: timeStep_paused)

lemma ticks_running:
  "\<not> pause (ticks adv n s) \<Longrightarrow>
   time (ticks adv n s) = time s + real n * real (unat (numStepsPerRender s)) * timeStepSize s"
proof (induction n arbitrary: s)
  case 0
  then show ?case by simp
next
  case (Suc n)
  have np: "\<not> pause (timeStep adv s)"
    using Suc.prems ticks_paused [of "timeStep adv s" adv n] by auto
  have "time (ticks adv n (timeStep adv s)) =
        time (timeStep adv s) +
        real n * real (unat (numStepsPerRender (timeStep adv s))) * timeStepSize (timeStep adv s)"
    using Suc.prems by (intro Suc.IH) simp
  then show ?case
    using timeStep_running [OF np] by (simp add: timeStep_frame algebra_simps)
qed

lemma timeStep_whole_steps:
  "\<exists>m::nat. time (timeStep adv s) = time s + real m * timeStepSize s"
proof (cases "pause (timeStep adv s)")
  case True
  then have "timeStep adv s = s \<or> timeStep adv s = s\<lparr>pause := True\<rparr>"
    by (auto simp: timeStep_def Let_def stepLoop_frame split: if_splits)
  then have "time (timeStep adv s) = time s + real (0::nat) * timeStepSize s" by auto
  then show ?thesis by blast
next
  case False
  from timeStep_running [OF False] show ?thesis by blast
qed

subsection \<open>Drag updates\<close>

lemma addImpulse_distinct:
  "distinct ps \<Longrightarrow> \<forall>p\<in>set ps. p < length vs \<Longrightarrow>
   addImpulse imp ps vs =
     Inr (map (\<lambda>i. if i \<in> set ps then vadd (vs ! i) imp else vs ! i) [0..<length vs])"
proof (induction ps arbitrary: vs)
  case Nil
  then show ?case by (simp add: map_nth)
next
  case (Cons p ps)
  let ?vs = "vs[p := vadd (vs ! p) imp]"
  have "addImpulse imp ps ?vs =
        Inr (map (\<lambda>i. if i \<in> set ps then vadd (?vs ! i) imp else ?vs ! i) [0..<length ?vs])"
    using Cons.prems by (intro Cons.IH) auto
  moreover have "map (\<lambda>i. if i \<in> set ps then vadd (?vs ! i) imp else ?vs ! i) [0..<length ?vs]
      = map (\<lambda>i. if i \<in> set (p # ps) then vadd (vs ! i) imp else vs ! i) [0..<length vs]"
    using Cons.prems by (auto simp: nth_list_update)
  ultimately show ?case using Cons.prems by simp
qed

lemma vimpulse_add:
  "h \<noteq> 0 \<Longrightarrow>
   vadd (vadd v (vdivs (vscale 5 (vsub p1 a)) h)) (vdivs (vscale 5 (vsub p2 p1)) h)
     = vadd v (vdivs (vscale 5 (vsub p2 a)) h)"
  by (cases v; cases p1; cases p2; cases a) (simp add: field_simps)

lemma vimpulse_gain: "vdivs (vscale 5 d) h = vscale (5 / h) d"
  by (cases d) simp

lemma vsub_telescope: "vadd (vsub p1 a) (vsub p2 p1) = vsub p2 a"
  by (cases p1; cases p2; cases a) simp

lemma mouseMove_distinct:
  assumes "timeStepSize s \<noteq> 0" "distinct (selectedParticles s)"
    "\<forall>p\<in>set (selectedParticles s). p < length (velocities (particles s))"
  shows "mouseMove u x y s =
     Inr (s\<lparr>particles := (particles s)\<lparr>velocities :=
               map (\<lambda>i. if i \<in> set (selectedParticles s)
                         then vadd (velocities (particles s) ! i)
                                (vdivs (vscale 5 (vsub (written (u x y)) (oldMousePos s)))
                                   (timeStepSize s))
                         else velocities (particles s) ! i)
                   [0..<length (velocities (particles s))]\<rparr>,
            oldMousePos := written (u x y)\<rparr>)"
  using assms by (simp add: mouseMove_def Let_def addImpulse_distinct)

lemma mouseMove_written:
  "written (u x y) = written (u' x' y') \<Longrightarrow> mouseMove u x y s = mouseMove u' x' y' s"
  by (simp add: mouseMove_def)

subsection \<open>Claims about the clock, pausing and reset\<close>

text \<open>
  C7. \<^verbatim>\<open>reset()\<close> is a total function of the state, whatever the pause flag: it sets the
  clock to 0, restores the particle state by the solver's reset contract, and leaves the
  pause flag as it was.
\<close>

theorem reset_clock_and_pause:
  "time (reset s) = 0 \<and> particles (reset s) = particles0 s \<and> pause (reset s) = pause s"
  by (simp add: reset_def modelReset_def)

text \<open>
  C2, as stated, fails where the clock equals the threshold: the check of \<^verbatim>\<open>timeStep\<close> is
  \<^verbatim>\<open>pauseAt < getTime()\<close>. In \<open>exampleState\<close> the clock and the threshold are both
  \<open>0.0025\<close>, and the tick runs its four steps without pausing.
\<close>

theorem pause_at_equal_counterexample:
  "0 < pauseAt exampleState \<and> pauseAt exampleState \<le> time exampleState \<and>
   \<not> pause (timeStep idleSolver exampleState) \<and>
   simSteps (timeStep idleSolver exampleState) = simSteps exampleState + 4"
  by (simp add: timeStep_def exampleState_def stepLoop_frame stepLoop_simSteps)

text \<open>
  C2, amended. With a positive threshold, a tick whose pre-step clock is strictly greater
  than the threshold sets the pause flag and runs no step (clock, particles and step count
  are unchanged); a tick of a running simulation whose pre-step clock equals the threshold
  does not pause and runs all its steps.
\<close>

theorem pause_at_strict:
  "(0 < pauseAt s \<and> pauseAt s < time s \<longrightarrow>
      pause (timeStep adv s) \<and> simSteps (timeStep adv s) = simSteps s \<and>
      time (timeStep adv s) = time s \<and> particles (timeStep adv s) = particles s) \<and>
   (\<not> pause s \<and> 0 < pauseAt s \<and> time s = pauseAt s \<longrightarrow>
      \<not> pause (timeStep adv s) \<and>
      simSteps (timeStep adv s) = simSteps s + unat (numStepsPerRender s))"
  by (simp add: timeStep_def Let_def stepLoop_simSteps stepLoop_frame)

theorem pause_at_strict_witness:
  "0 < pauseAt (exampleState\<lparr>time := 0.005\<rparr>) \<and>
   pauseAt (exampleState\<lparr>time := 0.005\<rparr>) < time (exampleState\<lparr>time := 0.005\<rparr>) \<and>
   pause (timeStep idleSolver (exampleState\<lparr>time := 0.005\<rparr>)) \<and>
   simSteps (timeStep idleSolver (exampleState\<lparr>time := 0.005\<rparr>)) = 1 \<and>
   time (timeStep idleSolver (exampleState\<lparr>time := 0.005\<rparr>)) = 0.005 \<and>
   \<not> pause exampleState \<and> 0 < pauseAt exampleState \<and> time exampleState = pauseAt exampleState \<and>
   \<not> pause (timeStep idleSolver exampleState) \<and>
   simSteps (timeStep idleSolver exampleState) = 5"
  using pause_at_strict [of "exampleState\<lparr>time := 0.005\<rparr>" idleSolver]
    pause_at_strict [of exampleState idleSolver]
  by (simp add: exampleState_def)

text \<open>
  C5. With \<open>k\<close> steps per render tick and step size \<open>h\<close>: a tick that runs (the simulation
  is not paused and the tick does not pause it) advances the clock by \<open>k * h\<close>; if the
  simulation is still running after \<open>n\<close> ticks, the clock has advanced by \<open>n * k * h\<close>;
  while paused, any number of ticks leaves the clock (and the whole state) unchanged; and
  every tick advances the clock by a whole number of steps.
\<close>

theorem clock_whole_steps:
  "(\<not> pause (timeStep adv s) \<longrightarrow>
      time (timeStep adv s) = time s + real (unat (numStepsPerRender s)) * timeStepSize s) \<and>
   (\<not> pause (ticks adv n s) \<longrightarrow>
      time (ticks adv n s) =
        time s + real n * real (unat (numStepsPerRender s)) * timeStepSize s) \<and>
   (pause s \<longrightarrow> ticks adv n s = s) \<and>
   (\<exists>m::nat. time (timeStep adv s) = time s + real m * timeStepSize s)"
  using timeStep_running [of adv s] ticks_running [of adv n s] ticks_paused [of s adv n]
    timeStep_whole_steps [of adv s]
  by blast

theorem clock_whole_steps_witness:
  "\<not> pause (ticks idleSolver 3 (exampleState\<lparr>time := 0, pauseAt := 0\<rparr>)) \<and>
   time (ticks idleSolver 3 (exampleState\<lparr>time := 0, pauseAt := 0\<rparr>)) = 3 * 4 * 0.0025 \<and>
   pause (exampleState\<lparr>pause := True\<rparr>) \<and>
   time (ticks idleSolver 3 (exampleState\<lparr>pause := True\<rparr>)) = 0.0025"
proof -
  let ?s = "exampleState\<lparr>time := 0, pauseAt := 0\<rparr>"
  have step: "\<not> pause t \<Longrightarrow> pauseAt t = 0 \<Longrightarrow>
      \<not> pause (timeStep idleSolver t) \<and> pauseAt (timeStep idleSolver t) = 0" for t
    by (simp add: timeStep_def stepLoop_frame)
  have "\<not> pause ?s \<and> pauseAt ?s = 0" by (simp add: exampleState_def)
  then have "\<not> pause (timeStep idleSolver (timeStep idleSolver (timeStep idleSolver ?s)))"
    using step by blast
  then have run: "\<not> pause (ticks idleSolver 3 ?s)"
    by (simp add: numeral_3_eq_3)
  have p: "pause (exampleState\<lparr>pause := True\<rparr>)" by simp
  show ?thesis
    using run p clock_whole_steps [of idleSolver ?s 3]
      clock_whole_steps [of idleSolver "exampleState\<lparr>pause := True\<rparr>" 3]
    by (simp add: exampleState_def)
qed

subsection \<open>Claims about drag updates\<close>

text \<open>
  C6. On a valid selection (indices distinct and inside the particle vector) and a nonzero
  step size, a drag update adds \<open>5 / h\<close> times the displacement from the anchor to the new
  cursor position to the velocity of every selected particle and moves the anchor to the
  new position. Two updates in a row, to \<open>p1\<close> and then to \<open>p2\<close>, end in the very state
  that a single update to \<open>p2\<close> reaches: the velocity of a selected particle has changed
  by \<open>5 / h\<close> times the sum of the two displacements and the anchor is \<open>p2\<close>.
\<close>

theorem drag_updates_accumulate:
  assumes h: "timeStepSize s \<noteq> 0" and d: "distinct (selectedParticles s)"
    and r: "\<forall>p\<in>set (selectedParticles s). p < length (velocities (particles s))"
  shows "\<exists>s1 s2.
           mouseMove u x1 y1 s = Inr s1 \<and> oldMousePos s1 = written (u x1 y1) \<and>
           (\<forall>p\<in>set (selectedParticles s).
              velocities (particles s1) ! p =
                vadd (velocities (particles s) ! p)
                  (vscale (5 / timeStepSize s) (vsub (written (u x1 y1)) (oldMousePos s)))) \<and>
           mouseMove u x2 y2 s1 = Inr s2 \<and> mouseMove u x2 y2 s = Inr s2 \<and>
           oldMousePos s2 = written (u x2 y2) \<and>
           (\<forall>p\<in>set (selectedParticles s).
              velocities (particles s2) ! p =
                vadd (velocities (particles s) ! p)
                  (vscale (5 / timeStepSize s)
                     (vadd (vsub (written (u x1 y1)) (oldMousePos s))
                           (vsub (written (u x2 y2)) (written (u x1 y1))))))"
proof -
  let ?upd = "\<lambda>x y. s\<lparr>particles := (particles s)\<lparr>velocities :=
               map (\<lambda>i. if i \<in> set (selectedParticles s)
                         then vadd (velocities (particles s) ! i)
                                (vdivs (vscale 5 (vsub (written (u x y)) (oldMousePos s)))
                                   (timeStepSize s))
                         else velocities (particles s) ! i)
                   [0..<length (velocities (particles s))]\<rparr>,
            oldMousePos := written (u x y)\<rparr>"
  have m1: "mouseMove u x1 y1 s = Inr (?upd x1 y1)"
    by (rule mouseMove_distinct [OF h d r])
  have m12: "mouseMove u x2 y2 s = Inr (?upd x2 y2)"
    by (rule mouseMove_distinct [OF h d r])
  have m2: "mouseMove u x2 y2 (?upd x1 y1) = Inr (?upd x2 y2)"
    using h d r by (subst mouseMove_distinct) (auto simp: vimpulse_add)
  show ?thesis
    using h r
    by (intro exI [of _ "?upd x1 y1"] exI [of _ "?upd x2 y2"])
       (simp add: m1 m12 m2 vimpulse_gain vsub_telescope)
qed

theorem drag_updates_accumulate_witness:
  "timeStepSize exampleState \<noteq> 0 \<and> distinct (selectedParticles exampleState) \<and>
   selectedParticles exampleState = [0] \<and> length (velocities (particles exampleState)) = 2 \<and>
   (\<exists>s1 s2. mouseMove unprojectInside 1 0 exampleState = Inr s1 \<and>
            oldMousePos s1 = (1, 0, 0) \<and>
            velocities (particles s1) ! 0 = (2000, 0, 1) \<and>
            mouseMove unprojectInside 3 2 s1 = Inr s2 \<and>
            mouseMove unprojectInside 3 2 exampleState = Inr s2 \<and>
            oldMousePos s2 = (3, 2, 0) \<and>
            velocities (particles s2) ! 0 = (6000, 4000, 1))"
proof -
  have h: "timeStepSize exampleState \<noteq> 0" by (simp add: exampleState_def)
  have d: "distinct (selectedParticles exampleState)" by (simp add: exampleState_def)
  have r: "\<forall>p\<in>set (selectedParticles exampleState).
             p < length (velocities (particles exampleState))"
    by (simp add: exampleState_def)
  from drag_updates_accumulate [OF h d r, of unprojectInside 1 0 3 2]
  obtain s1 s2 where
    "mouseMove unprojectInside 1 0 exampleState = Inr s1"
    "oldMousePos s1 = written (unprojectInside 1 0)"
    "\<forall>p\<in>set (selectedParticles exampleState).
       velocities (particles s1) ! p =
         vadd (velocities (particles exampleState) ! p)
           (vscale (5 / timeStepSize exampleState)
              (vsub (written (unprojectInside 1 0)) (oldMousePos exampleState)))"
    "mouseMove unprojectInside 3 2 s1 = Inr s2"
    "mouseMove unprojectInside 3 2 exampleState = Inr s2"
    "oldMousePos s2 = written (unprojectInside 3 2)"
    "\<forall>p\<in>set (selectedParticles exampleState).
       velocities (particles s2) ! p =
         vadd (velocities (particles exampleState) ! p)
           (vscale (5 / timeStepSize exampleState)
              (vadd (vsub (written (unprojectInside 1 0)) (oldMousePos exampleState))
                    (vsub (written (unprojectInside 3 2)) (written (unprojectInside 1 0)))))"
    by blast
  then have "mouseMove unprojectInside 1 0 exampleState = Inr s1 \<and>
            oldMousePos s1 = (1, 0, 0) \<and>
            velocities (particles s1) ! 0 = (2000, 0, 1) \<and>
            mouseMove unprojectInside 3 2 s1 = Inr s2 \<and>
            mouseMove unprojectInside 3 2 exampleState = Inr s2 \<and>
            oldMousePos s2 = (3, 2, 0) \<and>
            velocities (particles s2) ! 0 = (6000, 4000, 1)"
    by (simp add: exampleState_def unprojectInside_def)
  then show ?thesis using h d by (simp add: exampleState_def)
qed

text \<open>
  C8, as stated, fails: \<^verbatim>\<open>mouseMove\<close> has no failure path. With the cursor outside the
  frustum and \<^verbatim>\<open>unproject\<close> leaving \<open>(1, 0, 0)\<close> in its out-parameter, the anchor moves
  from \<open>(0, 0, 0)\<close> to \<open>(1, 0, 0)\<close> and the velocity of the selected particle changes from
  \<open>(0, 0, 1)\<close> to \<open>(2000, 0, 1)\<close>.
\<close>

theorem unproject_failure_counterexample:
  "unprojectOutside 0 0 = OutsideFrustum (1, 0, 0) \<and>
   oldMousePos exampleState = (0, 0, 0) \<and>
   selectedParticles exampleState = [0] \<and>
   velocities (particles exampleState) = [(0, 0, 1), (0, 0, 0)] \<and>
   mouseMove unprojectOutside 0 0 exampleState =
     Inr (exampleState\<lparr>particles := \<lparr>positions = [(0, 0, 0), (1, 0, 0)],
                                      velocities = [(2000, 0, 1), (0, 0, 0)]\<rparr>,
                       oldMousePos := (1, 0, 0)\<rparr>)"
  by (simp add: mouseMove_def Let_def unprojectOutside_def exampleState_def)

text \<open>
  C8, amended. \<^verbatim>\<open>mouseMove\<close> does not detect a failed \<^verbatim>\<open>unproject\<close>: the position \<open>p\<close>
  left in the out-parameter is the new cursor position, exactly as for a cursor inside the
  frustum. On a valid selection and a nonzero step size the update returns normally, adds
  \<open>5 / h\<close> times \<open>p - anchor\<close> to the velocity of every selected particle and sets the
  anchor to \<open>p\<close>; it changes nothing when \<open>p\<close> is the previous anchor.
\<close>

theorem mouseMove_outside_frustum:
  assumes h: "timeStepSize s \<noteq> 0" and d: "distinct (selectedParticles s)"
    and r: "\<forall>q\<in>set (selectedParticles s). q < length (velocities (particles s))"
    and o: "u x y = OutsideFrustum p"
  shows "\<exists>s'. mouseMove u x y s = Inr s' \<and>
           mouseMove (\<lambda>a b. InFrustum p) x y s = Inr s' \<and>
           oldMousePos s' = p \<and>
           (\<forall>q\<in>set (selectedParticles s).
              velocities (particles s') ! q =
                vadd (velocities (particles s) ! q)
                  (vscale (5 / timeStepSize s) (vsub p (oldMousePos s)))) \<and>
           (p = oldMousePos s \<longrightarrow> s' = s)"
proof -
  let ?s' = "s\<lparr>particles := (particles s)\<lparr>velocities :=
               map (\<lambda>i. if i \<in> set (selectedParticles s)
                         then vadd (velocities (particles s) ! i)
                                (vdivs (vscale 5 (vsub p (oldMousePos s))) (timeStepSize s))
                         else velocities (particles s) ! i)
                   [0..<length (velocities (particles s))]\<rparr>,
            oldMousePos := p\<rparr>"
  have m: "mouseMove u x y s = Inr ?s'"
    using mouseMove_distinct [OF h d r, of u x y] by (simp add: o)
  have m': "mouseMove (\<lambda>a b. InFrustum p) x y s = Inr ?s'"
    using mouseMove_distinct [OF h d r, of "\<lambda>a b. InFrustum p" x y] by simp
  have same: "?s' = s" if eq: "p = oldMousePos s"
  proof -
    obtain a b c where a: "oldMousePos s = (a, b, c)" by (cases "oldMousePos s")
    have z: "vadd v (0, 0, 0) = v" for v
      by (cases v) simp
    have "(\<lambda>i. if i \<in> set (selectedParticles s)
                    then vadd (velocities (particles s) ! i)
                           (vdivs (vscale 5 (vsub p (oldMousePos s))) (timeStepSize s))
                    else velocities (particles s) ! i) = (\<lambda>i. velocities (particles s) ! i)"
      by (intro ext) (simp add: eq a z)
    then have "map (\<lambda>i. if i \<in> set (selectedParticles s)
                    then vadd (velocities (particles s) ! i)
                           (vdivs (vscale 5 (vsub p (oldMousePos s))) (timeStepSize s))
                    else velocities (particles s) ! i)
            [0..<length (velocities (particles s))] = velocities (particles s)"
      by (simp only: map_nth)
    then show ?thesis by (simp add: eq)
  qed
  show ?thesis
    using r same by (intro exI [of _ ?s']) (simp add: m m' vimpulse_gain)
qed

theorem mouseMove_outside_frustum_witness:
  "timeStepSize exampleState \<noteq> 0 \<and> distinct (selectedParticles exampleState) \<and>
   selectedParticles exampleState = [0] \<and> length (velocities (particles exampleState)) = 2 \<and>
   unprojectOutside 7 9 = OutsideFrustum (1, 0, 0) \<and>
   (\<exists>s'. mouseMove unprojectOutside 7 9 exampleState = Inr s' \<and>
          mouseMove (\<lambda>a b. InFrustum (1, 0, 0)) 7 9 exampleState = Inr s' \<and>
          oldMousePos s' = (1, 0, 0) \<and>
          velocities (particles s') ! 0 = (2000, 0, 1))"
proof -
  have h: "timeStepSize exampleState \<noteq> 0" by (simp add: exampleState_def)
  have d: "distinct (selectedParticles exampleState)" by (simp add: exampleState_def)
  have r: "\<forall>q\<in>set (selectedParticles exampleState).
             q < length (velocities (particles exampleState))"
    by (simp add: exampleState_def)
  have o: "unprojectOutside 7 9 = OutsideFrustum (1, 0, 0)" by (simp add: unprojectOutside_def)
  from mouseMove_outside_frustum [of exampleState unprojectOutside 7 9 "(1, 0, 0)", OF h d r o]
  obtain s' where
    "mouseMove unprojectOutside 7 9 exampleState = Inr s'"
    "mouseMove (\<lambda>a b. InFrustum (1, 0, 0)) 7 9 exampleState = Inr s'"
    "oldMousePos s' = (1, 0, 0)"
    "\<forall>q\<in>set (selectedParticles exampleState).
       velocities (particles s') ! q =
         vadd (velocities (particles exampleState) ! q)
           (vscale (5 / timeStepSize exampleState) (vsub (1, 0, 0) (oldMousePos exampleState)))"
    by blast
  then have "mouseMove unprojectOutside 7 9 exampleState = Inr s' \<and>
          mouseMove (\<lambda>a b. InFrustum (1, 0, 0)) 7 9 exampleState = Inr s' \<and>
          oldMousePos s' = (1, 0, 0) \<and>
          velocities (particles s') ! 0 = (2000, 0, 1)"
    by (simp add: exampleState_def)
  then show ?thesis using h d o by (simp add: exampleState_def)
qed

text \<open>
  C10. \<^verbatim>\<open>reset()\<close> leaves the selection, the registered mouse-move handler and the anchor
  as they were. When the selected indices are distinct and inside the restored particle
  vector and the step size is nonzero, a drag update after the reset returns normally,
  keeps the selection, and adds its impulse to the restored velocity of every selected
  particle.
\<close>

theorem reset_keeps_selection:
  assumes h: "timeStepSize s \<noteq> 0" and d: "distinct (selectedParticles s)"
    and r: "\<forall>p\<in>set (selectedParticles s). p < length (velocities (particles0 s))"
  shows "selectedParticles (reset s) = selectedParticles s \<and>
         mouseMoveFunc (reset s) = mouseMoveFunc s \<and>
         oldMousePos (reset s) = oldMousePos s \<and>
         (\<exists>s'. mouseMove u x y (reset s) = Inr s' \<and>
                selectedParticles s' = selectedParticles s \<and>
                (\<forall>p\<in>set (selectedParticles s).
                   velocities (particles s') ! p =
                     vadd (velocities (particles0 s) ! p)
                       (vscale (5 / timeStepSize s)
                          (vsub (written (u x y)) (oldMousePos s)))))"
proof -
  have h': "timeStepSize (reset s) \<noteq> 0" using h by (simp add: reset_def modelReset_def)
  have d': "distinct (selectedParticles (reset s))"
    using d by (simp add: reset_def modelReset_def)
  have r': "\<forall>p\<in>set (selectedParticles (reset s)). p < length (velocities (particles (reset s)))"
    using r by (simp add: reset_def modelReset_def)
  show ?thesis
    using r
    by (simp add: mouseMove_distinct [OF h' d' r'])
       (simp add: reset_def modelReset_def vimpulse_gain)
qed

theorem reset_keeps_selection_witness:
  "timeStepSize exampleState \<noteq> 0 \<and> distinct (selectedParticles exampleState) \<and>
   selectedParticles exampleState = [0] \<and> length (velocities (particles0 exampleState)) = 2 \<and>
   selectedParticles (reset exampleState) = [0] \<and>
   mouseMoveFunc (reset exampleState) = (2, Some MouseMoveHandler) \<and>
   (\<exists>s'. mouseMove unprojectInside 1 2 (reset exampleState) = Inr s' \<and>
          selectedParticles s' = [0] \<and>
          velocities (particles s') ! 0 = (2000, 4000, 0))"
proof -
  have h: "timeStepSize exampleState \<noteq> 0" by (simp add: exampleState_def)
  have d: "distinct (selectedParticles exampleState)" by (simp add: exampleState_def)
  have r: "\<forall>p\<in>set (selectedParticles exampleState).
             p < length (velocities (particles0 exampleState))"
    by (simp add: exampleState_def)
  from reset_keeps_selection [OF h d r, of unprojectInside 1 2]
  obtain s' where
    "selectedParticles (reset exampleState) = selectedParticles exampleState"
    "mouseMoveFunc (reset exampleState) = mouseMoveFunc exampleState"
    "mouseMove unprojectInside 1 2 (reset exampleState) = Inr s'"
    "selectedParticles s' = selectedParticles exampleState"
    "\<forall>p\<in>set (selectedParticles exampleState).
       velocities (particles s') ! p =
         vadd (velocities (particles0 exampleState) ! p)
           (vscale (5 / timeStepSize exampleState)
              (vsub (written (unprojectInside 1 2)) (oldMousePos exampleState)))"
    by blast
  then have "selectedParticles (reset exampleState) = [0] \<and>
      mouseMoveFunc (reset exampleState) = (2, Some MouseMoveHandler) \<and>
      mouseMove unprojectInside 1 2 (reset exampleState) = Inr s' \<and>
      selectedParticles s' = [0] \<and>
      velocities (particles s') ! 0 = (2000, 4000, 0)"
    by (simp add: exampleState_def unprojectInside_def)
  then show ?thesis using h d by (simp add: exampleState_def)
qed


section \<open>The Scene Builder: filling a vector\<close>

subsection \<open>Sequences of assignments\<close>

lemma writeAll_fault:
  "writeAll ws xs = Inl e \<longleftrightarrow> e = OutOfBounds \<and> (\<exists>w\<in>set ws. \<not> fst w < length xs)"
  by (induction ws xs rule: writeAll.induct) auto

lemma writeAll_length:
  "writeAll ws xs = Inr ys \<Longrightarrow> length ys = length xs"
  by (induction ws xs rule: writeAll.induct) (auto split: if_splits)

lemma writeAll_ok:
  assumes "\<forall>w\<in>set ws. fst w < length xs"
  shows "\<exists>ys. writeAll ws xs = Inr ys \<and> length ys = length xs"
proof (cases "writeAll ws xs")
  case (Inl e)
  then show ?thesis using assms by (auto simp: writeAll_fault)
next
  case (Inr ys)
  then show ?thesis by (simp add: writeAll_length)
qed

lemma writeAll_nth_other:
  "writeAll ws xs = Inr ys \<Longrightarrow> i \<notin> fst ` set ws \<Longrightarrow> ys ! i = xs ! i"
  by (induction ws xs rule: writeAll.induct) (auto split: if_splits)

lemma writeAll_nth_written:
  "writeAll ws xs = Inr ys \<Longrightarrow> distinct (map fst ws) \<Longrightarrow> (i, v) \<in> set ws \<Longrightarrow> ys ! i = v"
proof (induction ws xs rule: writeAll.induct)
  case (1 xs)
  then show ?case by simp
next
  case (2 j u ws xs)
  from "2.prems"(1) have j: "j < length xs" and r: "writeAll ws (xs[j := u]) = Inr ys"
    by (auto split: if_splits)
  show ?case
  proof (cases "(i, v) \<in> set ws")
    case True
    with 2 j r show ?thesis by auto
  next
    case False
    with "2.prems" have iv: "i = j" "v = u" by auto
    have "j \<notin> fst ` set ws" using "2.prems"(2) by auto
    from writeAll_nth_other [OF r this] j iv show ?thesis by simp
  qed
qed

lemma writeAll_perm:
  assumes m: "mset ws' = mset ws" and d: "distinct (map fst ws)"
  shows "writeAll ws' xs = writeAll ws xs"
proof -
  have s: "set ws' = set ws" using m by (rule mset_eq_setD)
  have "mset (map fst ws') = mset (map fst ws)" using m by simp
  then have d': "distinct (map fst ws')" using d by (metis mset_eq_imp_distinct_iff)
  show ?thesis
  proof (cases "writeAll ws xs")
    case (Inl e)
    then have "writeAll ws' xs = Inl e" by (simp add: writeAll_fault s)
    with Inl show ?thesis by simp
  next
    case (Inr ys)
    have "\<not> (\<exists>e. writeAll ws' xs = Inl e)"
    proof
      assume "\<exists>e. writeAll ws' xs = Inl e"
      then obtain e where "writeAll ws' xs = Inl e" ..
      then have "writeAll ws xs = Inl e" by (simp add: writeAll_fault s)
      with Inr show False by simp
    qed
    then obtain ys' where ys': "writeAll ws' xs = Inr ys'" by (cases "writeAll ws' xs") auto
    have "ys' = ys"
    proof (rule nth_equalityI)
      show "length ys' = length ys"
        using writeAll_length [OF ys'] writeAll_length [OF Inr] by simp
    next
      fix i assume "i < length ys'"
      show "ys' ! i = ys ! i"
      proof (cases "i \<in> fst ` set ws")
        case True
        then obtain v where v: "(i, v) \<in> set ws" by force
        then have "ys ! i = v" using writeAll_nth_written [OF Inr d] by blast
        moreover have "ys' ! i = v" using writeAll_nth_written [OF ys' d'] v s by blast
        ultimately show ?thesis by simp
      next
        case False
        then show ?thesis
          using writeAll_nth_other [OF Inr] writeAll_nth_other [OF ys'] s by simp
      qed
    qed
    with ys' Inr show ?thesis by simp
  qed
qed

lemma writeAll_fill:
  "length zs = length vs \<Longrightarrow>
   writeAll (zip [length xs..<length xs + length vs] vs) (xs @ zs) = Inr (xs @ vs)"
proof (induction vs arbitrary: xs zs)
  case Nil
  then show ?case by simp
next
  case (Cons v vs)
  then obtain z zs' where zs: "zs = z # zs'" and l: "length zs' = length vs"
    by (cases zs) auto
  have "writeAll (zip [length (xs @ [v])..<length (xs @ [v]) + length vs] vs) ((xs @ [v]) @ zs')
        = Inr ((xs @ [v]) @ vs)"
    by (rule Cons.IH [OF l])
  moreover have "[length xs..<length xs + length (v # vs)]
      = length xs # [length (xs @ [v])..<length (xs @ [v]) + length vs]"
    by (subst upt_rec) simp
  ultimately show ?case
    by (simp add: zs del: upt_Suc)
qed

subsection \<open>The order of the lattice\<close>

lemma product_index:
  assumes "map g ys = [0..<m]"
  shows "map (\<lambda>(x, y). x * m + g y) (List.product [0..<n] ys) = [0..<n * m]"
proof (induction n)
  case 0
  then show ?case by simp
next
  case (Suc n)
  have "map (\<lambda>y. n * m + g y) ys = map (\<lambda>i. n * m + i) (map g ys)" by simp
  also have "\<dots> = [n * m..<n * m + m]"
    unfolding assms by (simp add: map_add_upt add.commute)
  finally have blk: "map (\<lambda>y. n * m + g y) ys = [n * m..<n * m + m]" .
  have "List.product [0..<Suc n] ys = List.product [0..<n] ys @ map (Pair n) ys"
    by (simp add: product_concat_map)
  then have "map (\<lambda>(x, y). x * m + g y) (List.product [0..<Suc n] ys)
      = [0..<n * m] @ map (\<lambda>y. n * m + g y) ys"
    using Suc.IH by (simp add: comp_def)
  also have "\<dots> = [0..<Suc n * m]"
    unfolding blk using upt_add_eq_append [of 0 "n * m" m] by (simp add: add.commute)
  finally show ?case .
qed

lemma lattice_index:
  "map (\<lambda>(j, k, l). j * (ny * nz) + k * nz + l)
     (List.product [0..<nx] (List.product [0..<ny] [0..<nz])) = [0..<nx * (ny * nz)]"
proof -
  have inner: "map (\<lambda>(k, l). k * nz + l) (List.product [0..<ny] [0..<nz]) = [0..<ny * nz]"
    using product_index [of "\<lambda>l. l" "[0..<nz]" nz ny] by simp
  have "(\<lambda>(j, k, l). j * (ny * nz) + k * nz + l)
      = (\<lambda>(j, y). j * (ny * nz) + (\<lambda>(k, l). k * nz + l) y)"
    by (auto simp: fun_eq_iff)
  then show ?thesis
    using product_index [OF inner, of nx] by simp
qed

lemma lattice_bound:
  assumes "j < nx" "k < ny" "l < (nz::nat)"
  shows "j * (ny * nz) + k * nz + l < nx * (ny * nz)"
proof -
  have "k * nz + l < Suc k * nz" using assms(3) by simp
  also have "\<dots> \<le> ny * nz" using assms(2) by (intro mult_le_mono1) simp
  finally have a: "k * nz + l < ny * nz" .
  then have "j * (ny * nz) + k * nz + l < Suc j * (ny * nz)" by simp
  also have "\<dots> \<le> nx * (ny * nz)" using assms(1) by (intro mult_le_mono1) simp
  finally show ?thesis .
qed

lemma zip_map_pair: "map (\<lambda>c. (f c, g c)) cs = zip (map f cs) (map g cs)"
  by (induction cs) simp_all

subsection \<open>Unsigned arithmetic without wrap-around\<close>

lemma unat_of_nat32: "n < 2 ^ 32 \<Longrightarrow> unat (of_nat n :: 32 word) = n"
  by (simp add: unat_of_nat)

lemma sint_of_nat32: "n < 2 ^ 31 \<Longrightarrow> sint (of_nat n :: 32 word) = int n"
  by (simp add: signed_of_nat signed_take_bit_int_eq_self)

lemma nat_sint_le: "nat (sint (w :: 32 word)) \<le> unat w"
proof -
  have "- (2 ^ 31) \<le> uint w"
    by (rule order_trans [of _ 0]) simp_all
  then have "signed_take_bit 31 (uint w) \<le> uint w"
    by (simp only: signed_take_bit_int_less_eq_self_iff)
  moreover have "sint w = signed_take_bit 31 (uint w)"
    by (subst sint_uint) simp
  ultimately have "sint w \<le> uint w" by (simp only:)
  then have "nat (sint w) \<le> nat (uint w)" by (rule nat_mono)
  then show ?thesis by (simp only: unat_eq_nat_uint)
qed

lemma toUInt_nonneg:
  assumes "0 \<le> q" "nat \<lfloor>q\<rfloor> < 2 ^ 32"
  shows "toUInt q = Inr (of_nat (nat \<lfloor>q\<rfloor>))"
proof -
  have f: "0 \<le> \<lfloor>q\<rfloor>" using assms(1) by simp
  have "\<lfloor>q\<rfloor> < 2 ^ 32" using assms(2) f by (simp add: nat_less_iff)
  then have "toUInt q = Inr (word_of_int \<lfloor>q\<rfloor>)"
    using assms(1) f by (simp add: toUInt_def)
  then show ?thesis by (simp only: word_of_int_nat [OF f])
qed

lemma wallIndex_of_nat:
  "wallIndex (of_nat a) (of_nat ny) (of_nat nz) j k l = of_nat (a + (j * (ny * nz) + k * nz + l))"
  by (simp add: wallIndex_def algebra_simps)

lemma start_plus_count:
  "(of_nat a :: 32 word) + of_nat nx * of_nat ny * of_nat nz = of_nat (a + nx * (ny * nz))"
  by (simp add: algebra_simps)

lemma resize_grow:
  "length xs \<le> n \<Longrightarrow> resize n fresh xs = xs @ map fresh [length xs..<n]"
  by (simp add: resize_def)

lemma wallWrites_in_tail:
  assumes sx: "unat sx = nx" and b: "a + nx * (ny * nz) < 2 ^ 32"
    and ny: "ny < 2 ^ 32" and nz: "nz < 2 ^ 32"
    and w: "w \<in> set (wallWrites radius mn (of_nat a) (sx, of_nat ny, of_nat nz))"
  shows "a \<le> fst w \<and> fst w < a + nx * (ny * nz)"
proof -
  from w obtain j k l where jkl: "j < nat (sint sx)" "k < unat (of_nat ny :: 32 word)"
      "l < unat (of_nat nz :: 32 word)"
    and fw: "fst w = unat (wallIndex (of_nat a) (of_nat ny) (of_nat nz) j k l)"
    by (auto simp: wallWrites_def)
  have j: "j < nx" using jkl(1) nat_sint_le [of sx] sx by linarith
  have k: "k < ny" using jkl(2) ny by (simp add: unat_of_nat32)
  have l: "l < nz" using jkl(3) nz by (simp add: unat_of_nat32)
  have lt: "j * (ny * nz) + k * nz + l < nx * (ny * nz)" by (rule lattice_bound [OF j k l])
  then have "a + (j * (ny * nz) + k * nz + l) < 2 ^ 32" using b by linarith
  then have "fst w = a + (j * (ny * nz) + k * nz + l)"
    by (simp only: fw wallIndex_of_nat unat_of_nat32)
  then show ?thesis using lt by linarith
qed


subsection \<open>Rounding keeps the sign\<close>

lemma ulp_pos: "0 < ulp f x"
  by (simp add: ulp_def Let_def)

lemma roundEven_nonneg: "0 \<le> y \<Longrightarrow> 0 \<le> roundEven y"
  by (simp add: roundEven_def Let_def)

lemma rnd_nonneg: "0 \<le> x \<Longrightarrow> 0 \<le> rnd f x"
proof -
  assume x: "0 \<le> x"
  have "0 \<le> x / ulp f x" using x ulp_pos [of f x] by simp
  then have "0 \<le> roundEven (x / ulp f x)" by (rule roundEven_nonneg)
  then have "0 \<le> real_of_int (roundEven (x / ulp f x)) * ulp f x"
    using ulp_pos [of f x] by simp
  then show ?thesis by (simp add: rnd_def)
qed

lemma rnd_0: "rnd f 0 = 0"
  by (simp add: rnd_def)

subsection \<open>The step counts, when the casts are defined\<close>

lemma machineSteps_pos: "0 < machineSteps f d e"
  by (simp add: machineSteps_def)

lemma axisSteps_ok:
  assumes d: "0 < d" and e: "0 \<le> e" and b: "machineSteps f d e < 2 ^ 32"
  shows "axisSteps f d e = Inr (of_nat (machineSteps f d e))"
proof -
  have q: "0 \<le> rnd f (e / d)" using d e by (intro rnd_nonneg) simp
  have n: "nat \<lfloor>rnd f (e / d)\<rfloor> < 2 ^ 32" using b by (simp add: machineSteps_def)
  show ?thesis
    using d by (simp add: axisSteps_def toUInt_nonneg [OF q n] bindF_def machineSteps_def)
qed

lemma wallSteps_ok:
  assumes d: "particleDistanceOf f radius = Inr d" and dpos: "0 < d"
    and e: "wallExtents f minX maxX = Inr (ex, ey, ez)"
    and nonneg: "0 \<le> ex" "0 \<le> ey" "0 \<le> ez"
    and b: "machineSteps f d ex < 2 ^ 32" "machineSteps f d ey < 2 ^ 32"
      "machineSteps f d ez < 2 ^ 32"
  shows "wallSteps f radius minX maxX =
     Inr (of_nat (machineSteps f d ex), of_nat (machineSteps f d ey),
          of_nat (machineSteps f d ez))"
  by (simp add: wallSteps_def d e bindF_def axisSteps_ok [OF dpos nonneg(1) b(1)]
      axisSteps_ok [OF dpos nonneg(2) b(2)] axisSteps_ok [OF dpos nonneg(3) b(3)])

lemma machineSteps_zero: "machineSteps f d 0 = 1"
  by (simp add: machineSteps_def rnd_0)

subsection \<open>addWall\<close>

lemma product_bounds:
  assumes pos: "0 < nx" "0 < ny" "0 < (nz::nat)" and b: "nx * (ny * nz) < m"
  shows "nx < m" "ny < m" "nz < m"
proof -
  have "nx \<le> nx * (ny * nz)" using pos by simp
  then show "nx < m" using b by linarith
  have "ny \<le> nx * (ny * nz)" using pos by simp
  then show "ny < m" using b by linarith
  have "nz \<le> nx * (ny * nz)" using pos by simp
  then show "nz < m" using b by linarith
qed

lemma addWall_unfold:
  assumes s: "wallSteps f radius mn mx = Inr (of_nat nx, of_nat ny, of_nat nz)"
    and b: "length bp + nx * (ny * nz) < 2 ^ 32"
  shows "addWall f radius fresh mn mx bp =
     writeAll (wallWrites radius mn (of_nat (length bp)) (of_nat nx, of_nat ny, of_nat nz))
       (bp @ map fresh [length bp..<length bp + nx * (ny * nz)])"
proof -
  have n: "unat ((of_nat (length bp) :: 32 word) + of_nat nx * of_nat ny * of_nat nz)
           = length bp + nx * (ny * nz)"
    using unat_of_nat32 [OF b] by (simp only: start_plus_count)
  show ?thesis
    by (simp add: addWall_def s bindF_def Let_def n resize_grow)
qed

lemma addWall_general:
  assumes s: "wallSteps f radius mn mx = Inr (of_nat nx, of_nat ny, of_nat nz)"
    and pos: "0 < nx" "0 < ny" "0 < nz"
    and b: "length bp + nx * (ny * nz) < 2 ^ 32"
  shows "(\<forall>w\<in>set (wallWrites radius mn (of_nat (length bp)) (of_nat nx, of_nat ny, of_nat nz)).
            length bp \<le> fst w \<and> fst w < length bp + nx * (ny * nz)) \<and>
         (\<exists>bp'. addWall f radius fresh mn mx bp = Inr bp' \<and>
            length bp' = length bp + nx * (ny * nz) \<and> take (length bp) bp' = bp)"
proof -
  let ?ws = "wallWrites radius mn (of_nat (length bp)) (of_nat nx, of_nat ny, of_nat nz)"
  let ?xs = "bp @ map fresh [length bp..<length bp + nx * (ny * nz)]"
  have b': "nx * (ny * nz) < 2 ^ 32" using b by linarith
  note bs = product_bounds [OF pos b']
  have tail: "length bp \<le> fst w \<and> fst w < length bp + nx * (ny * nz)" if "w \<in> set ?ws" for w
    using that b bs
    by (intro wallWrites_in_tail [where sx = "of_nat nx" and radius = radius and mn = mn])
       (simp_all add: unat_of_nat32)
  have "\<forall>w\<in>set ?ws. fst w < length ?xs" using tail by auto
  from writeAll_ok [OF this] obtain bp' where
    bp': "writeAll ?ws ?xs = Inr bp'" and len: "length bp' = length ?xs" by blast
  have "take (length bp) bp' = bp"
  proof (rule nth_equalityI)
    show "length (take (length bp) bp') = length bp" using len by simp
  next
    fix i assume "i < length (take (length bp) bp')"
    then have i: "i < length bp" by simp
    then have "i \<notin> fst ` set ?ws" using tail by force
    from writeAll_nth_other [OF bp' this] i show "take (length bp) bp' ! i = bp ! i"
      by (simp add: nth_append)
  qed
  then show ?thesis
    using bp' len tail by (simp add: addWall_unfold [OF s b])
qed

lemma addWall_ok:
  assumes s: "wallSteps f radius mn mx = Inr (of_nat nx, of_nat ny, of_nat nz)"
    and pos: "0 < nx" "0 < ny" "0 < nz"
    and i: "nx < 2 ^ 31"
    and b: "length bp + nx * (ny * nz) < 2 ^ 32"
  shows "addWall f radius fresh mn mx bp =
     Inr (bp @ map (\<lambda>(j, k, l). wallPos (2 * radius) mn j k l)
                 (List.product [0..<nx] (List.product [0..<ny] [0..<nz])))"
proof -
  let ?cs = "List.product [0..<nx] (List.product [0..<ny] [0..<nz])"
  let ?ps = "map (\<lambda>(j, k, l). wallPos (2 * radius) mn j k l) ?cs"
  let ?a = "length bp"
  have b': "nx * (ny * nz) < 2 ^ 32" using b by linarith
  note bs = product_bounds [OF pos b']
  have lp: "length ?ps = nx * (ny * nz)" by simp
  have idx: "map (\<lambda>(j, k, l). unat (wallIndex (of_nat ?a) (of_nat ny) (of_nat nz) j k l)) ?cs
      = [?a..<?a + nx * (ny * nz)]"
  proof -
    have "map (\<lambda>(j, k, l). unat (wallIndex (of_nat ?a) (of_nat ny) (of_nat nz) j k l)) ?cs
        = map (\<lambda>(j, k, l). ?a + (j * (ny * nz) + k * nz + l)) ?cs"
    proof (rule map_cong [OF refl])
      fix x assume x: "x \<in> set ?cs"
      obtain j k l where jkl: "x = (j, k, l)" by (cases x) auto
      with x have "j < nx" "k < ny" "l < nz" by auto
      from lattice_bound [OF this] b
      have "?a + (j * (ny * nz) + k * nz + l) < 2 ^ 32" by linarith
      then show "(case x of (j, k, l) \<Rightarrow> unat (wallIndex (of_nat ?a) (of_nat ny) (of_nat nz) j k l))
          = (case x of (j, k, l) \<Rightarrow> ?a + (j * (ny * nz) + k * nz + l))"
        by (simp only: jkl prod.case wallIndex_of_nat unat_of_nat32)
    qed
    also have "\<dots> = map (\<lambda>n. ?a + n) (map (\<lambda>(j, k, l). j * (ny * nz) + k * nz + l) ?cs)"
      by (simp add: comp_def case_prod_unfold)
    also have "\<dots> = [?a..<?a + nx * (ny * nz)]"
      unfolding lattice_index by (simp add: map_add_upt add.commute)
    finally show ?thesis .
  qed
  have "wallWrites radius mn (of_nat ?a) (of_nat nx, of_nat ny, of_nat nz)
      = map (\<lambda>c. ((\<lambda>(j, k, l). unat (wallIndex (of_nat ?a) (of_nat ny) (of_nat nz) j k l)) c,
                   (\<lambda>(j, k, l). wallPos (2 * radius) mn j k l) c)) ?cs"
    using i bs by (simp add: wallWrites_def sint_of_nat32 unat_of_nat32 case_prod_unfold)
  also have "\<dots> = zip [?a..<?a + length ?ps] ?ps"
    by (simp only: zip_map_pair idx lp)
  finally have ww: "wallWrites radius mn (of_nat ?a) (of_nat nx, of_nat ny, of_nat nz)
      = zip [?a..<?a + length ?ps] ?ps" .
  have "writeAll (zip [?a..<?a + length ?ps] ?ps)
          (bp @ map fresh [?a..<?a + nx * (ny * nz)]) = Inr (bp @ ?ps)"
    by (rule writeAll_fill) (simp add: lp)
  then show ?thesis
    by (simp only: addWall_unfold [OF s b] ww)
qed


subsection \<open>Evaluating the rounding\<close>

text \<open>
  The rules that unfold the rounding apply to closed numerals only: the operands are
  evaluated first, then rounded.
\<close>

lemma bitLength_0: "bitLength 0 = 0"
  by (simp add: bitLength.simps)

lemma bitLength_1: "bitLength 1 = 1" "bitLength (Suc 0) = 1"
  by (simp_all add: bitLength.simps)

lemma bitLength_numeral: "bitLength (numeral k) = Suc (bitLength (numeral k div 2))"
proof -
  have n: "(numeral k :: nat) \<noteq> 0" by simp
  show ?thesis by (subst bitLength.simps) (simp only: n if_False)
qed

lemmas rnd_closed =
  rnd_def [of _ 1] rnd_def [of _ "- 1"]
  rnd_def [of _ "numeral a"] rnd_def [of _ "- numeral a"]
  rnd_def [of _ "numeral a / numeral b"] rnd_def [of _ "- (numeral a / numeral b)"]
  rnd_def [of _ "1 / numeral b"] rnd_def [of _ "- (1 / numeral b)"]
  for a b

lemmas machine_eval = particleDistanceOf_def axisExtent_def axisSteps_def fl_def rnd_0
  rnd_closed ulp_def ilog2_def bitLength_0 bitLength_1 bitLength_numeral roundEven_def
  toUInt_def bindF_def Let_def

subsection \<open>The machine's numbers in the scenario\<close>

lemma pd_double: "particleDistanceOf Double particleRadius = Inr (3602879701896397 / 2 ^ 56)"
  by (simp add: machine_eval particleRadius_def)

lemma pd_float: "particleDistanceOf Float particleRadius = Inr (13421773 / 2 ^ 28)"
  by (simp add: machine_eval particleRadius_def)

lemma walls_eval:
  "walls = [((- 2, 0, - 0.4), (2, 0, 0.4)),
            ((- 2, 4, - 0.4), (2, 4, 0.4)),
            ((- 2, 0, - 0.4), (- 2, 4, 0.4)),
            ((2, 0, - 0.4), (2, 4, 0.4)),
            ((- 2, 0, - 0.4), (2, 4, - 0.4)),
            ((- 2, 0, 0.4), (2, 4, 0.4))]"
  by (simp add: walls_def Let_def containerWidth_def containerDepth_def containerHeight_def
      width_def depth_def particleRadius_def)

lemma wallSteps_walls:
  "map (\<lambda>w. wallSteps f particleRadius (fst w) (snd w)) walls =
     [Inr (81, 1, 17), Inr (81, 1, 17), Inr (1, 81, 17), Inr (1, 81, 17),
      Inr (81, 81, 1), Inr (81, 81, 1)]"
  by (cases f) (simp_all add: walls_eval wallSteps_def machine_eval particleRadius_def)

lemma wallSteps_wide:
  "wallSteps Double particleRadius (0, 0, 0) (4000, 4000, 0) = Inr (80001, 80001, 1)"
  "wallSteps Float particleRadius (0, 0, 0) (4000, 4000, 0) = Inr (80001, 80001, 1)"
  by (simp_all add: wallSteps_def machine_eval particleRadius_def)

text \<open>
  The rounding decides the count: at spacing \<open>0.05\<close> an extent of \<open>0.15\<close> has a quotient just
  below 3 in double precision and exactly 3 in single precision.
\<close>

lemma rounded_quotient:
  "wallSteps Double particleRadius (0, 0, 0) (0.15, 0, 0) = Inr (3, 1, 1)"
  "wallSteps Float particleRadius (0, 0, 0) (0.15, 0, 0) = Inr (4, 1, 1)"
  "wallSteps Double particleRadius (0, 0, 0) (0.35, 0.6, 0.7) = Inr (7, 12, 14)"
  "wallSteps Float particleRadius (0, 0, 0) (0.35, 0.6, 0.7) = Inr (8, 13, 15)"
  by (simp_all add: wallSteps_def machine_eval particleRadius_def)

text \<open>
  The constants of the scenario are used at their ideal values. The machine computes
  \<^verbatim>\<open>containerWidth\<close>, \<^verbatim>\<open>containerDepth\<close> and the corners of the walls by rounded operations
  from the rounded radius; what it gets are the machine numbers next to the ideal values,
  which is what the step counts above start from.
\<close>

lemma scenario_constants_rounded:
  "rnd f (rnd f (rnd f 16 * rnd f particleRadius) * rnd f 10) = containerWidth"
  "rnd f (rnd f (rnd f 16 * rnd f particleRadius) * rnd f 2) = rnd f containerDepth"
  "rnd f (- rnd f containerWidth / 2) = rnd f (- containerWidth / 2)"
  "rnd f (rnd f containerDepth / 2) = rnd f (containerDepth / 2)"
  "rnd f (- rnd f containerDepth / 2) = rnd f (- containerDepth / 2)"
  "rnd f containerHeight = containerHeight"
  by (cases f; simp add: machine_eval particleRadius_def containerWidth_def containerDepth_def
      containerHeight_def width_def depth_def)+


subsection \<open>The fluid lattice\<close>

lemma fluid_dims:
  "nat (sint width) = 15" "unat height = 20" "unat depth = 15" "unat width = 15"
  "unat (width * height * depth) = 4500"
  by (simp_all add: width_def height_def depth_def)

lemma fluidIndex_nat:
  assumes "i < 15" "j < 20" "k < 15"
  shows "unat (fluidIndex i j k) = i * (20 * 15) + j * 15 + k"
proof -
  have "fluidIndex i j k = wallIndex (of_nat 0) (of_nat 20) (of_nat 15) i j k"
    by (simp add: fluidIndex_def wallIndex_def height_def depth_def)
  also have "\<dots> = of_nat (0 + (i * (20 * 15) + j * 15 + k))"
    by (rule wallIndex_of_nat)
  finally have e: "fluidIndex i j k = of_nat (i * (20 * 15) + j * 15 + k)" by simp
  from lattice_bound [OF assms] have "i * (20 * 15) + j * 15 + k < 2 ^ 32" by simp
  from unat_of_nat32 [OF this] show ?thesis by (simp only: e)
qed

lemma fluidWrites_zip:
  "fluidWrites =
     zip [0..<4500]
       (map (\<lambda>(i, j, k). fluidPos i j k)
          (List.product [0..<15] (List.product [0..<20] [0..<15])))"
proof -
  let ?cs = "List.product [0..<15::nat] (List.product [0..<20::nat] [0..<15::nat])"
  have "map (\<lambda>(i, j, k). unat (fluidIndex i j k)) ?cs
      = map (\<lambda>(i, j, k). i * (20 * 15) + j * 15 + k) ?cs"
  proof (rule map_cong [OF refl])
    fix x assume x: "x \<in> set ?cs"
    obtain i j k where ijk: "x = (i, j, k)" by (cases x) auto
    with x have "i < 15" "j < 20" "k < 15" by auto
    from fluidIndex_nat [OF this]
    show "(case x of (i, j, k) \<Rightarrow> unat (fluidIndex i j k))
        = (case x of (i, j, k) \<Rightarrow> i * (20 * 15) + j * 15 + k)"
      by (simp only: ijk prod.case)
  qed
  also have "\<dots> = [0..<15 * (20 * 15)]" by (rule lattice_index)
  finally have idx: "map (\<lambda>(i, j, k). unat (fluidIndex i j k)) ?cs = [0..<4500]" by simp
  have "fluidWrites
      = map (\<lambda>c. ((\<lambda>(i, j, k). unat (fluidIndex i j k)) c, (\<lambda>(i, j, k). fluidPos i j k) c)) ?cs"
    by (simp add: fluidWrites_def fluid_dims case_prod_unfold)
  also have "\<dots> = zip [0..<4500] (map (\<lambda>(i, j, k). fluidPos i j k) ?cs)"
    by (simp only: zip_map_pair idx)
  finally show ?thesis .
qed

lemma fluidWrites_indices: "map fst fluidWrites = [0..<4500]"
  by (simp add: fluidWrites_zip)

lemma fillFluid_sequential:
  "fillFluid fluidWrites fresh =
     Inr (map (\<lambda>(i, j, k). fluidPos i j k)
            (List.product [0..<15] (List.product [0..<20] [0..<15])))"
proof -
  let ?ps = "map (\<lambda>(i, j, k). fluidPos i j k)
            (List.product [0..<15::nat] (List.product [0..<20::nat] [0..<15::nat]))"
  have l: "length ?ps = 4500" by simp
  have "writeAll (zip [length ([]::Vector3r list)..<length ([]::Vector3r list) + length ?ps] ?ps)
          ([] @ map fresh [0..<4500]) = Inr ([] @ ?ps)"
    by (rule writeAll_fill) simp
  then show ?thesis
    by (simp add: fillFluid_def fluid_dims resize_def fluidWrites_zip)
qed


subsection \<open>The geometry of the scenario\<close>

lemma fluidPos_eval:
  "fluidPos i j k = (2 * particleRadius * real i + (- containerWidth / 2 + 2 * particleRadius),
                     2 * particleRadius * real j + 2 * particleRadius,
                     2 * particleRadius * real k + (- containerDepth / 2 + 2 * particleRadius))"
  by (simp add: fluidPos_def diam_def startX_def startY_def startZ_def)

lemma stepCount_eval:
  "stepCount (2 * particleRadius) 0 = 1"
  "stepCount (2 * particleRadius) 4 = 81"
  "stepCount (2 * particleRadius) (4 / 5) = 17"
  by (simp_all add: stepCount_def particleRadius_def)

lemma stepCount_pos: "0 < stepCount s e"
  by (simp add: stepCount_def)

lemma wallCount_walls:
  "map (\<lambda>w. wallCount particleRadius (fst w) (snd w)) walls =
     [81 * 17, 81 * 17, 81 * 17, 81 * 17, 81 * 81, 81 * 81]"
  by (simp add: walls_eval wallCount_def stepCount_eval)

lemma length_wallPoints: "length (wallPoints radius mn mx) = wallCount radius mn mx"
  by (simp add: wallPoints_def wallCount_def split: prod.split)

text \<open>
  On the six walls of the scenario the step counts the machine computes, in either
  format, are the step counts of the specification.
\<close>

lemma wallSteps_wall:
  assumes w: "w \<in> set walls"
  shows "wallSteps f particleRadius (fst w) (snd w) =
     Inr (of_nat (stepCount (2 * particleRadius) (fst (vsub (snd w) (fst w)))),
          of_nat (stepCount (2 * particleRadius) (fst (snd (vsub (snd w) (fst w))))),
          of_nat (stepCount (2 * particleRadius) (snd (snd (vsub (snd w) (fst w))))))"
  using wallSteps_walls [of f] w by (auto simp: walls_eval stepCount_eval)

lemma addWall_wall:
  assumes w: "w \<in> set walls"
    and b: "length bp + wallCount particleRadius (fst w) (snd w) < 2 ^ 32"
  shows "addWall f particleRadius fresh (fst w) (snd w) bp =
           Inr (bp @ wallPoints particleRadius (fst w) (snd w))"
proof -
  obtain ex ey ez where d: "vsub (snd w) (fst w) = (ex, ey, ez)"
    by (cases "vsub (snd w) (fst w)")
  have "ex = 0 \<or> ex = 4" using w d by (auto simp: walls_eval)
  then have i: "stepCount (2 * particleRadius) ex < 2 ^ 31"
    by (auto simp: stepCount_eval)
  have b': "length bp + stepCount (2 * particleRadius) ex *
      (stepCount (2 * particleRadius) ey * stepCount (2 * particleRadius) ez) < 2 ^ 32"
    using b by (simp add: wallCount_def d)
  have s: "wallSteps f particleRadius (fst w) (snd w) =
     Inr (of_nat (stepCount (2 * particleRadius) ex), of_nat (stepCount (2 * particleRadius) ey),
          of_nat (stepCount (2 * particleRadius) ez))"
    using wallSteps_wall [OF w, of f] by (simp add: d)
  from addWall_ok [OF s stepCount_pos stepCount_pos stepCount_pos i b']
  show ?thesis by (simp add: wallPoints_def d)
qed

lemma addWalls_ok:
  "set ws \<subseteq> set walls \<Longrightarrow>
   length bp + sum_list (map (\<lambda>w. wallCount particleRadius (fst w) (snd w)) ws) < 2 ^ 32 \<Longrightarrow>
   addWalls f particleRadius fresh ws bp =
     Inr (bp @ concat (map (\<lambda>w. wallPoints particleRadius (fst w) (snd w)) ws))"
proof (induction ws arbitrary: bp)
  case Nil
  then show ?case by simp
next
  case (Cons w ws)
  obtain mn mx where w: "w = (mn, mx)" by (cases w)
  have in_walls: "w \<in> set walls" using Cons.prems(1) by simp
  have b: "length bp + wallCount particleRadius (fst w) (snd w) < 2 ^ 32"
    using Cons.prems(2) by simp
  have a: "addWall f particleRadius fresh mn mx bp = Inr (bp @ wallPoints particleRadius mn mx)"
    using addWall_wall [OF in_walls b] by (simp add: w)
  have "addWalls f particleRadius fresh ws (bp @ wallPoints particleRadius mn mx) =
      Inr ((bp @ wallPoints particleRadius mn mx) @
           concat (map (\<lambda>w. wallPoints particleRadius (fst w) (snd w)) ws))"
    using Cons.prems by (intro Cons.IH) (simp_all add: length_wallPoints w add.assoc)
  then show ?case by (simp add: w a bindF_def)
qed

lemma initBoundaryData_ok:
  "initBoundaryData f particleRadius fresh [] =
     Inr (concat (map (\<lambda>w. wallPoints particleRadius (fst w) (snd w)) walls))"
proof -
  have "length ([]::Vector3r list) +
      sum_list (map (\<lambda>w. wallCount particleRadius (fst w) (snd w)) walls) < 2 ^ 32"
    by (simp add: wallCount_walls)
  from addWalls_ok [OF subset_refl this] show ?thesis
    by (simp add: initBoundaryData_def)
qed

lemma addWall_wide:
  assumes s: "wallSteps f particleRadius (0, 0, 0) (4000, 4000, 0) = Inr (80001, 80001, 1)"
  shows "addWall f particleRadius zeroFresh (0, 0, 0) (4000, 4000, 0) [] = Inl OutOfBounds"
proof -
  have n: "unat (0 + 80001 * 80001 * 1 :: 32 word) = 2105192705" by simp
  have i: "unat (wallIndex 0 80001 1 26315 0 0) = 2105226315" by (simp add: wallIndex_def)
  have m: "(unat (wallIndex 0 80001 1 26315 0 0), wallPos (2.0 * particleRadius) (0, 0, 0) 26315 0 0)
      \<in> set (wallWrites particleRadius (0, 0, 0) 0 (80001, 80001, 1))"
    unfolding wallWrites_def prod.case set_map
    by (rule image_eqI [where x = "(26315, 0, 0)"]) simp_all
  have "\<exists>w\<in>set (wallWrites particleRadius (0, 0, 0) 0 (80001, 80001, 1)).
          \<not> fst w < length (resize 2105192705 zeroFresh ([] :: Vector3r list))"
    using m i by (intro bexI [OF _ m]) (simp add: resize_def)
  then have "writeAll (wallWrites particleRadius (0, 0, 0) 0 (80001, 80001, 1))
      (resize 2105192705 zeroFresh []) = Inl OutOfBounds"
    by (simp only: writeAll_fault simp_thms)
  then show ?thesis
    using n by (simp add: addWall_def s bindF_def)
qed

section \<open>Claims about the Scene Builder\<close>

text \<open>
  C1. For every lattice coordinate \<open>(i, j, k)\<close> with \<open>i < width\<close>, \<open>j < height\<close>,
  \<open>k < depth\<close> the cell \<open>i*height*depth + j*depth + k\<close> of the fluid vector holds
  \<open>2 * radius * (i, j, k) + (startX, startY, startZ)\<close>. The indices assigned by the loops
  are \<open>0, 1, \<dots>, width*height*depth - 1\<close>, each once. The vector does not depend on what
  the cells held before (\<open>fresh\<close>), nor on the order in which the assignments are made:
  every permutation of them, that is every schedule of the parallel loop, gives the same
  vector. It is the fluid vector that \<^verbatim>\<open>createBreakingDam\<close> hands to \<^verbatim>\<open>model.initModel\<close>,
  in either format of \<^verbatim>\<open>Real\<close>.
\<close>

theorem fluid_lattice:
  "\<exists>ps. fillFluid fluidWrites fresh = Inr ps \<and>
     length ps = unat width * unat height * unat depth \<and>
     (\<forall>i<unat width. \<forall>j<unat height. \<forall>k<unat depth.
        ps ! (i * unat height * unat depth + j * unat depth + k) =
          vadd (vscale (2 * particleRadius) (real i, real j, real k)) (startX, startY, startZ)) \<and>
     map fst fluidWrites = [0..<unat width * unat height * unat depth] \<and>
     (\<forall>ws fresh'. mset ws = mset fluidWrites \<longrightarrow> fillFluid ws fresh' = Inr ps) \<and>
     (\<forall>f freshB. createBreakingDam f fresh freshB =
        Inr (ps, concat (map (\<lambda>w. wallPoints particleRadius (fst w) (snd w)) walls)))"
proof -
  define ps where "ps = map (\<lambda>(i, j, k). fluidPos i j k)
            (List.product [0..<15::nat] (List.product [0..<20::nat] [0..<15::nat]))"
  have seq: "fillFluid fluidWrites g = Inr ps" for g
    by (simp only: fillFluid_sequential ps_def)
  note ps = seq [of fresh]
  have d: "distinct (map fst fluidWrites)" by (simp add: fluidWrites_indices)
  have len: "length ps = 4500" by (simp add: ps_def)
  have cell: "ps ! (i * 20 * 15 + j * 15 + k) = fluidPos i j k"
    if "i < 15" "j < 20" "k < 15" for i j k
  proof -
    have "(unat (fluidIndex i j k), fluidPos i j k) \<in> set fluidWrites"
      using that by (force simp: fluidWrites_def fluid_dims)
    from writeAll_nth_written [OF ps [unfolded fillFluid_def] d this]
    show ?thesis by (simp add: fluidIndex_nat [OF that] mult.commute)
  qed
  have par: "fillFluid ws fresh' = Inr ps" if "mset ws = mset fluidWrites" for ws fresh'
  proof -
    have "fillFluid ws fresh' = fillFluid fluidWrites fresh'"
      unfolding fillFluid_def by (rule writeAll_perm [OF that d])
    then show ?thesis by (simp only: seq)
  qed
  have dam: "createBreakingDam f fresh freshB =
      Inr (ps, concat (map (\<lambda>w. wallPoints particleRadius (fst w) (snd w)) walls))"
    for f freshB
    by (simp add: createBreakingDam_def bindF_def seq initBoundaryData_ok)
  show ?thesis
    using ps len cell par dam
    by (intro exI [of _ ps]) (simp add: fluid_dims fluidWrites_indices fluidPos_def diam_def)
qed

theorem fluid_lattice_witness:
  "\<exists>ps. fillFluid fluidWrites zeroFresh = Inr ps \<and> length ps = 4500 \<and>
     ps ! 333 = (- 1.9, 0.15, - 0.2) \<and>
     fillFluid (rev fluidWrites) (\<lambda>n. (real n, 0, 0)) = Inr ps"
proof -
  from fluid_lattice [of zeroFresh] obtain ps where
    a: "fillFluid fluidWrites zeroFresh = Inr ps"
    and b: "length ps = unat width * unat height * unat depth"
    and c: "\<forall>i<unat width. \<forall>j<unat height. \<forall>k<unat depth.
        ps ! (i * unat height * unat depth + j * unat depth + k) =
          vadd (vscale (2 * particleRadius) (real i, real j, real k)) (startX, startY, startZ)"
    and e: "\<forall>ws fresh'. mset ws = mset fluidWrites \<longrightarrow> fillFluid ws fresh' = Inr ps"
    by blast
  have "ps ! (1 * unat height * unat depth + 2 * unat depth + 3) =
          vadd (vscale (2 * particleRadius) (real 1, real 2, real 3)) (startX, startY, startZ)"
    using c [rule_format, of 1 2 3] by (simp add: fluid_dims)
  then have "ps ! 333 = (- 1.9, 0.15, - 0.2)"
    by (simp add: fluid_dims startX_def startY_def startZ_def diam_def containerWidth_def
        containerDepth_def particleRadius_def width_def depth_def)
  moreover have "fillFluid (rev fluidWrites) (\<lambda>n. (real n, 0, 0)) = Inr ps"
    using e by simp
  ultimately show ?thesis using a b by (simp add: fluid_dims)
qed

text \<open>
  C4, as stated, fails for the x axis: the container is five times as wide as the lattice
  needs (\<^verbatim>\<open>containerWidth\<close> has the factor \<^verbatim>\<open>2.0 * 5.0\<close>) and the block of fluid stands
  at its left wall, as a dam that is about to break. The block spans \<open>x = -1.95 \<dots> -1.25\<close>
  in a container spanning \<open>x = -2 \<dots> 2\<close>: the gap to the left wall is \<open>0.05\<close>, the gap
  to the right wall is \<open>3.25\<close>.
\<close>

theorem fluid_not_centred_in_x:
  "fst (fluidPos 0 0 0) = - 1.95 \<and> fst (fluidPos (unat width - 1) 0 0) = - 1.25 \<and>
   - containerWidth / 2 = - 2 \<and> containerWidth / 2 = 2 \<and>
   fst (fluidPos 0 0 0) - (- containerWidth / 2) = 0.05 \<and>
   containerWidth / 2 - fst (fluidPos (unat width - 1) 0 0) = 3.25"
  by (simp add: fluidPos_eval containerWidth_def width_def particleRadius_def)

text \<open>
  C4, amended. Adjacent lattice neighbours are exactly \<open>2 * radius\<close> apart on every axis;
  the lowest layer is at height \<open>startY = 2 * radius\<close>; in z the block is centred in the
  container (the gaps to the back and to the front wall are equal); in x the block starts
  \<open>2 * radius\<close> inside the left wall and ends at \<open>width * 2 * radius\<close> from it, in a
  container of width \<open>5 * (width + 1) * 2 * radius\<close>.
\<close>

theorem fluid_grid_geometry:
  "vsub (fluidPos (Suc i) j k) (fluidPos i j k) = (2 * particleRadius, 0, 0) \<and>
   vsub (fluidPos i (Suc j) k) (fluidPos i j k) = (0, 2 * particleRadius, 0) \<and>
   vsub (fluidPos i j (Suc k)) (fluidPos i j k) = (0, 0, 2 * particleRadius) \<and>
   fst (snd (fluidPos i 0 k)) = startY \<and> startY = 2 * particleRadius \<and>
   snd (snd (fluidPos i j 0)) - (- containerDepth / 2) =
     containerDepth / 2 - snd (snd (fluidPos i j (unat depth - 1))) \<and>
   fst (fluidPos 0 j k) = - containerWidth / 2 + 2 * particleRadius \<and>
   fst (fluidPos (unat width - 1) j k) = - containerWidth / 2 + real (unat width) * (2 * particleRadius) \<and>
   containerWidth = 5 * (real (unat width + 1) * (2 * particleRadius)) \<and>
   containerDepth = real (unat depth + 1) * (2 * particleRadius)"
proof -
  have cw: "containerWidth = 4" and cd: "containerDepth = 0.8"
    by (simp_all add: containerWidth_def containerDepth_def width_def depth_def
        particleRadius_def)
  have spacing:
    "vsub (fluidPos (Suc i) j k) (fluidPos i j k) = (2 * particleRadius, 0, 0)"
    "vsub (fluidPos i (Suc j) k) (fluidPos i j k) = (0, 2 * particleRadius, 0)"
    "vsub (fluidPos i j (Suc k)) (fluidPos i j k) = (0, 0, 2 * particleRadius)"
    by (simp_all add: fluidPos_eval algebra_simps)
  have rest:
    "fst (snd (fluidPos i 0 k)) = startY \<and> startY = 2 * particleRadius \<and>
     snd (snd (fluidPos i j 0)) - (- containerDepth / 2) =
       containerDepth / 2 - snd (snd (fluidPos i j (unat depth - 1))) \<and>
     fst (fluidPos 0 j k) = - containerWidth / 2 + 2 * particleRadius \<and>
     fst (fluidPos (unat width - 1) j k) =
       - containerWidth / 2 + real (unat width) * (2 * particleRadius) \<and>
     containerWidth = 5 * (real (unat width + 1) * (2 * particleRadius)) \<and>
     containerDepth = real (unat depth + 1) * (2 * particleRadius)"
    by (simp add: fluidPos_eval startY_def diam_def cw cd fluid_dims particleRadius_def)
  show ?thesis using spacing rest by blast
qed

text \<open>
  C3, as stated, fails in its last part: the floor of the built scenario spans \<open>4.0\<close> by
  \<open>0.8\<close> at spacing \<open>0.05\<close>, so \<^verbatim>\<open>addWall\<close> appends \<open>81 * 17 = 1377\<close> particles for
  it, not \<open>16 * 16 = 256\<close>.
\<close>

theorem floor_wall_count_counterexample:
  "walls ! 0 = ((- 2, 0, - 0.4), (2, 0, 0.4)) \<and>
   map_sum id length (addWall Double particleRadius zeroFresh (- 2, 0, - 0.4) (2, 0, 0.4) []) =
     Inr (81 * 17) \<and>
   map_sum id length (addWall Float particleRadius zeroFresh (- 2, 0, - 0.4) (2, 0, 0.4) []) =
     Inr (81 * 17) \<and>
   (81 * 17 :: nat) \<noteq> 16 * 16"
proof -
  have w: "((- 2, 0, - 0.4), (2, 0, 0.4)) \<in> set walls" by (simp add: walls_eval)
  have c: "wallCount particleRadius (- 2, 0, - 0.4) (2, 0, 0.4) = 81 * 17"
    by (simp add: wallCount_def stepCount_eval)
  have "addWall f particleRadius zeroFresh (- 2, 0, - 0.4) (2, 0, 0.4) [] =
      Inr ([] @ wallPoints particleRadius (- 2, 0, - 0.4) (2, 0, 0.4))" for f
    using addWall_wall [OF w, of "[]" f zeroFresh] c by simp
  then show ?thesis
    using c by (simp add: walls_eval length_wallPoints)
qed

text \<open>
  C3, amended. For each of the six walls of the scenario, built with spacing
  \<open>s = 2 * radius\<close>, \<^verbatim>\<open>addWall\<close> appends (to a vector that stays below \<open>2^32\<close> elements),
  in either format of \<^verbatim>\<open>Real\<close>, exactly the \<open>(floor(Ex/s)+1) * (floor(Ey/s)+1) * (floor(Ez/s)+1)\<close> lattice points of the
  wall in canonical order. The step count of a degenerate axis is 1, so the count is the
  product over the two in-plane axes: \<open>81 * 17\<close> for floor, top, left and right,
  \<open>81 * 81\<close> for back and front. The floor has \<open>1377\<close> particles and the boundary of the
  scenario \<open>18630\<close>.
\<close>

theorem six_walls_count:
  "(\<forall>w\<in>set walls. \<forall>bp.
      length bp + wallCount particleRadius (fst w) (snd w) < 2 ^ 32 \<longrightarrow>
      addWall f particleRadius fresh (fst w) (snd w) bp =
        Inr (bp @ wallPoints particleRadius (fst w) (snd w)) \<and>
      length (wallPoints particleRadius (fst w) (snd w)) =
        wallCount particleRadius (fst w) (snd w)) \<and>
   stepCount (2 * particleRadius) 0 = 1 \<and>
   map (\<lambda>w. wallCount particleRadius (fst w) (snd w)) walls =
     [81 * 17, 81 * 17, 81 * 17, 81 * 17, 81 * 81, 81 * 81] \<and>
   wallCount particleRadius (fst (walls ! 0)) (snd (walls ! 0)) = 1377 \<and>
   initBoundaryData f particleRadius fresh [] =
     Inr (concat (map (\<lambda>w. wallPoints particleRadius (fst w) (snd w)) walls)) \<and>
   length (concat (map (\<lambda>w. wallPoints particleRadius (fst w) (snd w)) walls)) = 18630"
proof -
  have "length (concat (map (\<lambda>w. wallPoints particleRadius (fst w) (snd w)) walls))
      = sum_list (map (\<lambda>w. wallCount particleRadius (fst w) (snd w)) walls)"
    by (simp add: length_concat comp_def length_wallPoints)
  then have total: "length (concat (map (\<lambda>w. wallPoints particleRadius (fst w) (snd w)) walls))
      = 18630"
    by (simp only: wallCount_walls) simp
  have floor_count: "wallCount particleRadius (fst (walls ! 0)) (snd (walls ! 0)) = 1377"
    by (simp add: walls_eval wallCount_def stepCount_eval)
  show ?thesis
    using addWall_wall [where f = f] length_wallPoints stepCount_eval(1) wallCount_walls
      floor_count initBoundaryData_ok [of f] total
    by blast
qed

theorem six_walls_count_witness:
  "walls ! 4 \<in> set walls \<and>
   length [(0, 0, 0) :: Vector3r] + wallCount particleRadius (fst (walls ! 4)) (snd (walls ! 4))
     < 2 ^ 32 \<and>
   addWall Float particleRadius zeroFresh (fst (walls ! 4)) (snd (walls ! 4)) [(0, 0, 0)] =
     Inr ([(0, 0, 0)] @ wallPoints particleRadius (fst (walls ! 4)) (snd (walls ! 4))) \<and>
   addWall Double particleRadius zeroFresh (fst (walls ! 4)) (snd (walls ! 4)) [(0, 0, 0)] =
     Inr ([(0, 0, 0)] @ wallPoints particleRadius (fst (walls ! 4)) (snd (walls ! 4))) \<and>
   length (wallPoints particleRadius (fst (walls ! 4)) (snd (walls ! 4))) = 6561"
proof -
  have w: "walls ! 4 \<in> set walls" by (simp add: walls_eval)
  have c: "wallCount particleRadius (fst (walls ! 4)) (snd (walls ! 4)) = 6561"
    by (simp add: walls_eval wallCount_def stepCount_eval)
  have b: "length [(0, 0, 0) :: Vector3r] +
      wallCount particleRadius (fst (walls ! 4)) (snd (walls ! 4)) < 2 ^ 32"
    by (simp add: c)
  from six_walls_count [of Float zeroFresh] six_walls_count [of Double zeroFresh] w b
  have "addWall Float particleRadius zeroFresh (fst (walls ! 4)) (snd (walls ! 4)) [(0, 0, 0)] =
          Inr ([(0, 0, 0)] @ wallPoints particleRadius (fst (walls ! 4)) (snd (walls ! 4))) \<and>
        addWall Double particleRadius zeroFresh (fst (walls ! 4)) (snd (walls ! 4)) [(0, 0, 0)] =
          Inr ([(0, 0, 0)] @ wallPoints particleRadius (fst (walls ! 4)) (snd (walls ! 4))) \<and>
        length (wallPoints particleRadius (fst (walls ! 4)) (snd (walls ! 4))) =
          wallCount particleRadius (fst (walls ! 4)) (snd (walls ! 4))"
    by blast
  then show ?thesis using w b c by simp
qed

text \<open>
  C9, as stated, fails where the counts do not fit \<^verbatim>\<open>unsigned int\<close>. A wall of extents
  \<open>(4000, 4000, 0)\<close> at spacing \<open>0.05\<close> has \<open>80001\<close> steps on two axes, in either format;
  their product wraps around to \<open>2105192705\<close>, the vector is resized to that many cells,
  and the assignment for \<open>(j, k, l) = (26315, 0, 0)\<close> has index \<open>2105226315\<close>, outside the
  vector.
\<close>

theorem addWall_wraparound_counterexample:
  "particleDistanceOf Double particleRadius = Inr (3602879701896397 / 2 ^ 56) \<and>
   wallExtents Double (0, 0, 0) (4000, 4000, 0) = Inr (4000, 4000, 0) \<and>
   wallSteps Double particleRadius (0, 0, 0) (4000, 4000, 0) = Inr (80001, 80001, 1) \<and>
   wallSteps Float particleRadius (0, 0, 0) (4000, 4000, 0) = Inr (80001, 80001, 1) \<and>
   unat (0 + 80001 * 80001 * 1 :: 32 word) = 2105192705 \<and>
   unat (wallIndex 0 80001 1 26315 0 0) = 2105226315 \<and>
   addWall Double particleRadius zeroFresh (0, 0, 0) (4000, 4000, 0) [] = Inl OutOfBounds \<and>
   addWall Float particleRadius zeroFresh (0, 0, 0) (4000, 4000, 0) [] = Inl OutOfBounds"
proof -
  have e: "wallExtents Double (0, 0, 0) (4000, 4000, 0) = Inr (4000, 4000, 0)"
    by (simp add: machine_eval)
  have n: "unat (0 + 80001 * 80001 * 1 :: 32 word) = 2105192705" by simp
  have i: "unat (wallIndex 0 80001 1 26315 0 0) = 2105226315" by (simp add: wallIndex_def)
  show ?thesis
    using pd_double e wallSteps_wide addWall_wide [OF wallSteps_wide(1)]
      addWall_wide [OF wallSteps_wide(2)] n i
    by blast
qed

text \<open>
  C9, amended. Let the particle distance \<open>d\<close> that \<^verbatim>\<open>addWall\<close> computes be positive, the
  extents \<^verbatim>\<open>diff = maxX - minX\<close> it computes be non-negative on every axis, and the wall
  fit: the size of the vector plus the product of the three step counts
  \<^verbatim>\<open>(unsigned int)(diff[i] / particleDistance) + 1\<close> is below \<open>2^32\<close>. Then every per-axis
  step count is at least 1 (it is 1 for a zero extent), every index assigned lies in the
  newly resized tail of the vector, the vector grows by exactly the product of the step
  counts, and the particles appended before are unchanged.
\<close>

theorem addWall_within_tail:
  assumes d: "particleDistanceOf f radius = Inr d" and dpos: "0 < d"
    and e: "wallExtents f minX maxX = Inr (ex, ey, ez)"
    and nonneg: "0 \<le> ex" "0 \<le> ey" "0 \<le> ez"
    and b: "length bp + machineSteps f d ex * (machineSteps f d ey * machineSteps f d ez)
              < 2 ^ 32"
  shows "\<exists>stepsX stepsY stepsZ bp'.
           wallSteps f radius minX maxX = Inr (stepsX, stepsY, stepsZ) \<and>
           unat stepsX = machineSteps f d ex \<and> unat stepsY = machineSteps f d ey \<and>
           unat stepsZ = machineSteps f d ez \<and>
           1 \<le> unat stepsX \<and> 1 \<le> unat stepsY \<and> 1 \<le> unat stepsZ \<and>
           machineSteps f d 0 = 1 \<and>
           (\<forall>w\<in>set (wallWrites radius minX (of_nat (length bp)) (stepsX, stepsY, stepsZ)).
              length bp \<le> fst w \<and>
              fst w < length bp + unat stepsX * (unat stepsY * unat stepsZ)) \<and>
           addWall f radius fresh minX maxX bp = Inr bp' \<and>
           length bp' = length bp + unat stepsX * (unat stepsY * unat stepsZ) \<and>
           take (length bp) bp' = bp"
proof -
  let ?nx = "machineSteps f d ex" and ?ny = "machineSteps f d ey"
    and ?nz = "machineSteps f d ez"
  have b': "?nx * (?ny * ?nz) < 2 ^ 32" using b by linarith
  note pos = machineSteps_pos [of f d ex] machineSteps_pos [of f d ey]
    machineSteps_pos [of f d ez]
  note bs = product_bounds [OF pos b']
  have ws: "wallSteps f radius minX maxX = Inr (of_nat ?nx, of_nat ?ny, of_nat ?nz)"
    by (rule wallSteps_ok [OF d dpos e nonneg bs])
  have u: "unat (of_nat ?nx :: 32 word) = ?nx" "unat (of_nat ?ny :: 32 word) = ?ny"
    "unat (of_nat ?nz :: 32 word) = ?nz"
    using bs by (simp_all add: unat_of_nat32)
  from addWall_general [OF ws pos b, of fresh] obtain bp' where
    tail: "\<forall>w\<in>set (wallWrites radius minX (of_nat (length bp)) (of_nat ?nx, of_nat ?ny, of_nat ?nz)).
            length bp \<le> fst w \<and> fst w < length bp + ?nx * (?ny * ?nz)"
    and bp': "addWall f radius fresh minX maxX bp = Inr bp'"
      "length bp' = length bp + ?nx * (?ny * ?nz)" "take (length bp) bp' = bp"
    by blast
  show ?thesis
    using ws tail bp' pos
    by (intro exI [of _ "of_nat ?nx"] exI [of _ "of_nat ?ny"] exI [of _ "of_nat ?nz"]
        exI [of _ bp'])
       (simp add: u machineSteps_zero Suc_le_eq)
qed

theorem addWall_within_tail_witness:
  "particleDistanceOf Double particleRadius = Inr (3602879701896397 / 2 ^ 56) \<and>
   (0 :: real) < 3602879701896397 / 2 ^ 56 \<and>
   wallExtents Double (- 2, 0, - 0.4) (2, 0, 0.4) = Inr (4, 0, 3602879701896397 / 2 ^ 52) \<and>
   (0 :: real) \<le> 4 \<and> (0 :: real) \<le> 0 \<and> (0 :: real) \<le> 3602879701896397 / 2 ^ 52 \<and>
   length [(9, 9, 9) :: Vector3r] +
     machineSteps Double (3602879701896397 / 2 ^ 56) 4 *
       (machineSteps Double (3602879701896397 / 2 ^ 56) 0 *
        machineSteps Double (3602879701896397 / 2 ^ 56) (3602879701896397 / 2 ^ 52)) < 2 ^ 32 \<and>
   wallSteps Double particleRadius (- 2, 0, - 0.4) (2, 0, 0.4) = Inr (81, 1, 17) \<and>
   (\<exists>bp'. addWall Double particleRadius zeroFresh (- 2, 0, - 0.4) (2, 0, 0.4) [(9, 9, 9)] =
            Inr bp' \<and>
          length bp' = 1378 \<and> take 1 bp' = [(9, 9, 9)])"
proof -
  let ?d = "3602879701896397 / 2 ^ 56 :: real" and ?z = "3602879701896397 / 2 ^ 52 :: real"
  have dpos: "0 < ?d" by simp
  have e: "wallExtents Double (- 2, 0, - 0.4) (2, 0, 0.4) = Inr (4, 0, ?z)"
    by (simp add: machine_eval)
  have nonneg: "(0 :: real) \<le> 4" "(0 :: real) \<le> 0" "0 \<le> ?z" by simp_all
  have m: "machineSteps Double ?d 4 = 81" "machineSteps Double ?d 0 = 1"
    "machineSteps Double ?d ?z = 17"
    by (simp_all add: machineSteps_def machine_eval)
  have b: "length [(9, 9, 9) :: Vector3r] +
      machineSteps Double ?d 4 * (machineSteps Double ?d 0 * machineSteps Double ?d ?z) < 2 ^ 32"
    by (simp only: m) simp
  from addWall_within_tail [OF pd_double dpos e nonneg b, of zeroFresh]
  obtain stepsX stepsY stepsZ bp' where
    s: "wallSteps Double particleRadius (- 2, 0, - 0.4) (2, 0, 0.4) = Inr (stepsX, stepsY, stepsZ)"
    and u: "unat stepsX = machineSteps Double ?d 4" "unat stepsY = machineSteps Double ?d 0"
      "unat stepsZ = machineSteps Double ?d ?z"
    and a: "addWall Double particleRadius zeroFresh (- 2, 0, - 0.4) (2, 0, 0.4) [(9, 9, 9)] = Inr bp'"
      "length bp' = length [(9, 9, 9) :: Vector3r] + unat stepsX * (unat stepsY * unat stepsZ)"
      "take (length [(9, 9, 9) :: Vector3r]) bp' = [(9, 9, 9)]"
    by blast
  have "stepsX = 81" "stepsY = 1" "stepsZ = 17"
    using u by (simp_all only: m word_unat_eq_iff) simp_all
  then have s': "wallSteps Double particleRadius (- 2, 0, - 0.4) (2, 0, 0.4) = Inr (81, 1, 17)"
    using s by simp
  have "\<exists>bp'. addWall Double particleRadius zeroFresh (- 2, 0, - 0.4) (2, 0, 0.4) [(9, 9, 9)] =
            Inr bp' \<and> length bp' = 1378 \<and> take 1 bp' = [(9, 9, 9)]"
    using a u m by (intro exI [of _ bp']) simp
  then show ?thesis using pd_double dpos e nonneg b s' by blast
qed

end
